theory Spec2Isabelle
  imports Main
begin

section \<open>The host page: document tree and storage\<close>

text \<open>
  The theme toggle exists in two variants: the script whose labels are the words
  \<open>light\<close> and \<open>dark\<close> (marker class \<open>dark\<close>, themed surfaces: the elements of class
  \<open>card\<close>), and \<open>docs/dark.js\<close> (labels are two emoji, marker class \<open>darken\<close>, themed
  surfaces: elements of class \<open>card\<close> and the \<open>code\<close> and \<open>pre\<close> elements). Both are
  embedded below. The functions of the first variant keep the names of the source without
  the leading underscore, those of \<open>docs/dark.js\<close> carry the suffix \<open>_docs\<close>.

  An element carries what the scripts read or write: its tag (in lower case), its \<open>id\<close>
  and \<open>name\<close> attributes, its class list, its text, its click handler and its child
  elements. The document is the tree below \<open>document.body\<close>, which exists when the
  scripts run (they run from \<open>window.onload\<close>); elements outside the body are not part
  of the model. Reads and writes of \<open>localStorage\<close> succeed. The loops of the scripts
  assign each visited element to a global \<open>x\<close> that is never read; it is left out.
\<close>

datatype handler = Toggle_dark

datatype element = Element
  (tagName: string)
  (elem_id: string)
  (name_attr: string)
  (classList: "string list")
  (textContent: string)
  (onclick: "handler option")
  (children: "element list")

type_synonym storage = "string \<rightharpoonup> string"

text \<open>
  The page state: the body, \<open>localStorage\<close>, and the value that the global scope of the
  host page binds to the identifier \<open>enabled\<close> (as the string it compares as), \<open>None\<close>
  when the page binds none. Neither script declares such a variable.
\<close>

record page =
  body :: element
  localStorage :: storage
  global_enabled :: "string option"

datatype js_error = ReferenceError string

datatype completion = Normal | Throw js_error

subsection \<open>DOM operations\<close>

definition has_class :: "string \<Rightarrow> element \<Rightarrow> bool" where
  "has_class c e = (c \<in> set (classList e))"

definition has_tag :: "string \<Rightarrow> element \<Rightarrow> bool" where
  "has_tag t e = (tagName e = t)"

definition has_id :: "string \<Rightarrow> element \<Rightarrow> bool" where
  "has_id i e = (elem_id e = i)"

text \<open>\<open>x.classList.toggle(tok)\<close>: removes the token when present, appends it otherwise.\<close>

fun classList_toggle :: "string \<Rightarrow> element \<Rightarrow> element" where
  "classList_toggle tok (Element t i n cl tx h ch) =
     Element t i n (if tok \<in> set cl then removeAll tok cl else cl @ [tok]) tx h ch"

text \<open>The element and its descendants in tree order.\<close>

fun elements :: "element \<Rightarrow> element list" where
  "elements (Element t i n cl tx h ch) =
     Element t i n cl tx h ch # concat (map elements ch)"

definition descendants :: "element \<Rightarrow> element list" where
  "descendants b = concat (map elements (children b))"

definition getElementsByClassName :: "string \<Rightarrow> element \<Rightarrow> element list" where
  "getElementsByClassName c b = filter (has_class c) (descendants b)"

definition getElementsByTagName :: "string \<Rightarrow> element \<Rightarrow> element list" where
  "getElementsByTagName t b = filter (has_tag t) (descendants b)"

text \<open>\<open>document.getElementById\<close>: the first element in tree order with that id.\<close>

definition getElementById :: "string \<Rightarrow> element \<Rightarrow> element option" where
  "getElementById i b = find (has_id i) (elements b)"

text \<open>
  \<open>for (x of coll) { x.classList.toggle(tok); }\<close> over the collection of the descendants
  that satisfy \<open>P\<close>: every member is visited once, and toggling \<open>tok\<close> does not change
  the membership, which depends on the tag or on the class \<open>card\<close>. \<open>toggle_in\<close> visits
  an element and its subtree, \<open>toggle_each\<close> the descendants of \<open>b\<close>.
\<close>

fun toggle_in :: "(element \<Rightarrow> bool) \<Rightarrow> string \<Rightarrow> element \<Rightarrow> element" where
  "toggle_in P tok (Element t i n cl tx h ch) =
     (let e = Element t i n cl tx h (map (toggle_in P tok) ch)
      in if P (Element t i n cl tx h ch) then classList_toggle tok e else e)"

fun toggle_each :: "(element \<Rightarrow> bool) \<Rightarrow> string \<Rightarrow> element \<Rightarrow> element" where
  "toggle_each P tok (Element t i n cl tx h ch) =
     Element t i n cl tx h (map (toggle_in P tok) ch)"

text \<open>
  A write through a reference to the first element, in tree order, that satisfies \<open>P\<close>:
  that element is replaced by \<open>f\<close> of it, the rest of the tree is kept. Without such an
  element the tree is unchanged.
\<close>

fun update_first :: "(element \<Rightarrow> bool) \<Rightarrow> (element \<Rightarrow> element) \<Rightarrow> element \<Rightarrow> element"
  and update_first_list ::
    "(element \<Rightarrow> bool) \<Rightarrow> (element \<Rightarrow> element) \<Rightarrow> element list \<Rightarrow> element list" where
  "update_first P f (Element t i n cl tx h ch) =
     (if P (Element t i n cl tx h ch) then f (Element t i n cl tx h ch)
      else Element t i n cl tx h (update_first_list P f ch))"
| "update_first_list P f [] = []"
| "update_first_list P f (x # xs) =
     (if list_ex P (elements x) then update_first P f x # xs
      else x # update_first_list P f xs)"

text \<open>
  \<open>b.textContent = c\<close> replaces all children of \<open>b\<close> by the text \<open>c\<close>;
  \<open>h.prepend(b)\<close> makes \<open>b\<close> the first child of \<open>h\<close>.
\<close>

fun set_textContent :: "string \<Rightarrow> element \<Rightarrow> element" where
  "set_textContent c (Element t i n cl tx h ch) = Element t i n cl c h []"

fun prepend :: "element \<Rightarrow> element \<Rightarrow> element" where
  "prepend b (Element t i n cl tx h ch) = Element t i n cl tx h (b # ch)"

text \<open>
  For the collection \<open>f\<close> of the \<open>div\<close> descendants of the body, \<open>"header" in f\<close> holds
  when one of them has the id or the name \<open>header\<close>, and \<open>f.header\<close> is the first such.
\<close>

definition named_header :: "element \<Rightarrow> bool" where
  "named_header e = (has_tag ''div'' e \<and> (elem_id e = ''header'' \<or> name_attr e = ''header''))"

definition header_in :: "element \<Rightarrow> bool" where
  "header_in b = list_ex named_header (getElementsByTagName ''div'' b)"

fun prepend_header :: "element \<Rightarrow> element \<Rightarrow> element" where
  "prepend_header b (Element t i n cl tx h ch) =
     Element t i n cl tx h (update_first_list named_header (prepend b) ch)"

subsection \<open>localStorage\<close>

definition getItem :: "storage \<Rightarrow> string \<Rightarrow> string option" where
  "getItem s k = s k"

definition setItem :: "storage \<Rightarrow> string \<Rightarrow> string \<Rightarrow> storage" where
  "setItem s k v = s(k \<mapsto> v)"

text \<open>\<open>v || "n"\<close>: \<open>null\<close> and the empty string are falsy.\<close>

definition or_n :: "string option \<Rightarrow> string" where
  "or_n v = (case v of None \<Rightarrow> ''n'' | Some s \<Rightarrow> if s = [] then ''n'' else s)"

section \<open>The variant with the labels \<open>light\<close> and \<open>dark\<close>\<close>

definition UNDARK_TEXT :: string where
  "UNDARK_TEXT = ''light''"

definition DARK_TEXT :: string where
  "DARK_TEXT = ''dark''"

definition get_dark_state :: "page \<Rightarrow> string" where
  "get_dark_state p = or_n (getItem (localStorage p) ''darkmode_enabled'')"

definition set_button_text :: "string \<Rightarrow> element \<Rightarrow> element" where
  "set_button_text enabled d =
     (let c = (if enabled = ''y'' then UNDARK_TEXT else DARK_TEXT)
      in case getElementById ''dark-button'' d of
           None \<Rightarrow> d
         | Some b \<Rightarrow> update_first (has_id ''dark-button'') (set_textContent c) d)"

definition darken :: "element \<Rightarrow> element" where
  "darken b = toggle_each (has_class ''card'') ''dark'' (classList_toggle ''dark'' b)"

definition toggle_dark :: "page \<Rightarrow> completion \<times> page" where
  "toggle_dark p =
     (let e = (if get_dark_state p = ''y'' then ''n'' else ''y'');
          p1 = p\<lparr>localStorage := setItem (localStorage p) ''darkmode_enabled'' e\<rparr>;
          p2 = p1\<lparr>body := darken (body p1)\<rparr>
      in (Normal, p2\<lparr>body := set_button_text e (body p2)\<rparr>))"

definition new_span :: element where
  "new_span = Element ''span'' ''dark-button'' [] [] [] (Some Toggle_dark) []"

definition dark_init :: "page \<Rightarrow> completion \<times> page" where
  "dark_init p =
     (let e = get_dark_state p;
          p1 = (if e = ''y'' then p\<lparr>body := darken (body p)\<rparr> else p);
          b = new_span;
          p2 = (if header_in (body p1) then p1\<lparr>body := prepend_header b (body p1)\<rparr> else p1)
      in (Normal, p2\<lparr>body := set_button_text e (body p2)\<rparr>))"

section \<open>The variant \<open>docs/dark.js\<close>\<close>

text \<open>The two labels are the UTF-8 bytes of the sun and the full moon emoji.\<close>

definition SUN_SYMBOL :: string where
  "SUN_SYMBOL = [CHR 0xE2, CHR 0x98, CHR 0x80, CHR 0xEF, CHR 0xB8, CHR 0x8F]"

definition MOON_SYMBOL :: string where
  "MOON_SYMBOL = [CHR 0xF0, CHR 0x9F, CHR 0x8C, CHR 0x95]"

definition set_button_text_docs :: "string \<Rightarrow> element \<Rightarrow> element" where
  "set_button_text_docs enabled d =
     (let c = (if enabled = ''y'' then SUN_SYMBOL else MOON_SYMBOL)
      in case getElementById ''dark-button'' d of
           None \<Rightarrow> d
         | Some b \<Rightarrow> update_first (has_id ''dark-button'') (set_textContent c) d)"

definition darken_docs :: "element \<Rightarrow> element" where
  "darken_docs b =
     toggle_each (has_tag ''pre'') ''darken''
       (toggle_each (has_tag ''code'') ''darken''
          (toggle_each (has_class ''card'') ''darken'' (classList_toggle ''darken'' b)))"

text \<open>
  The last statement of \<open>toggle_dark\<close> in \<open>docs/dark.js\<close> reads the identifier
  \<open>enabled\<close>, which the function does not bind: the read raises a \<open>ReferenceError\<close>
  unless the page binds a global of that name. The writes before it stay in effect.
\<close>

definition toggle_dark_docs :: "page \<Rightarrow> completion \<times> page" where
  "toggle_dark_docs p =
     (let e0 = or_n (getItem (localStorage p) ''darkmode_enabled'');
          e = (if e0 = ''y'' then ''n'' else ''y'');
          p1 = p\<lparr>localStorage := setItem (localStorage p) ''darkmode_enabled'' e\<rparr>;
          p2 = p1\<lparr>body := darken_docs (body p1)\<rparr>
      in case global_enabled p2 of
           None \<Rightarrow> (Throw (ReferenceError ''enabled''), p2)
         | Some enabled \<Rightarrow> (Normal, p2\<lparr>body := set_button_text_docs enabled (body p2)\<rparr>))"

definition new_div :: element where
  "new_div = Element ''div'' ''dark-button'' [] [] [] (Some Toggle_dark) []"

definition dark_init_docs :: "page \<Rightarrow> completion \<times> page" where
  "dark_init_docs p =
     (let b = new_div;
          p1 = p\<lparr>body := prepend b (body p)\<rparr>;
          e = or_n (getItem (localStorage p1) ''darkmode_enabled'');
          p2 = (if e = ''y'' then p1\<lparr>body := darken_docs (body p1)\<rparr> else p1)
      in (Normal, p2\<lparr>body := set_button_text_docs e (body p2)\<rparr>))"

section \<open>Observations on a page\<close>

text \<open>
  The marker of the first variant is the class \<open>dark\<close>, its themed surfaces are the
  elements of class \<open>card\<close> below the body. \<open>surface_markers\<close> lists, in tree order,
  whether each surface carries the marker; \<open>observable\<close> is what a user can tell of a
  page: whether the stored preference reads as dark, the marker of the body and the
  markers of the surfaces.
\<close>

definition surface_markers :: "element \<Rightarrow> bool list" where
  "surface_markers b = map (has_class ''dark'') (getElementsByClassName ''card'' b)"

definition observable :: "page \<Rightarrow> bool \<times> bool \<times> bool list" where
  "observable p = (get_dark_state p = ''y'', has_class ''dark'' (body p), surface_markers (body p))"

text \<open>
  In \<open>docs/dark.js\<close> the marker is \<open>darken\<close> and the surfaces are the members of the
  three collections, in the order of the three loops. Both scripts read the stored
  preference by the same expression, the one of \<open>get_dark_state\<close>.
\<close>

definition surfaces_docs :: "element \<Rightarrow> element list" where
  "surfaces_docs b = getElementsByClassName ''card'' b @ getElementsByTagName ''code'' b
                     @ getElementsByTagName ''pre'' b"

definition surface_markers_docs :: "element \<Rightarrow> bool list" where
  "surface_markers_docs b = map (has_class ''darken'') (surfaces_docs b)"

definition observable_docs :: "page \<Rightarrow> bool \<times> bool \<times> bool list" where
  "observable_docs p =
     (get_dark_state p = ''y'', has_class ''darken'' (body p), surface_markers_docs (body p))"

text \<open>
  \<open>n\<close> clicks on the control. A call of \<open>toggle_dark\<close> in \<open>docs/dark.js\<close> that raises
  leaves its writes in place, and the next click starts from that page.
\<close>

primrec toggles :: "nat \<Rightarrow> page \<Rightarrow> page" where
  "toggles 0 p = p"
| "toggles (Suc n) p = toggles n (snd (toggle_dark p))"

primrec toggles_docs :: "nat \<Rightarrow> page \<Rightarrow> page" where
  "toggles_docs 0 p = p"
| "toggles_docs (Suc n) p = toggles_docs n (snd (toggle_dark_docs p))"

text \<open>
  \<open>themed v d\<close>: the body and every surface of \<open>d\<close> carry the marker exactly when \<open>v\<close>
  holds; \<open>in_sync d\<close>: every surface agrees with the body. In \<open>docs/dark.js\<close> an
  element can be a member of two collections (a \<open>code\<close> or \<open>pre\<close> element of class
  \<open>card\<close>); \<open>themed_once\<close> holds for the surfaces that are members of exactly one.
\<close>

definition themed :: "bool \<Rightarrow> element \<Rightarrow> bool" where
  "themed v d = (has_class ''dark'' d = v
     \<and> list_all (\<lambda>c. has_class ''dark'' c = v) (getElementsByClassName ''card'' d))"

definition in_sync :: "element \<Rightarrow> bool" where
  "in_sync d = list_all (\<lambda>c. has_class ''dark'' c = has_class ''dark'' d)
                 (getElementsByClassName ''card'' d)"

definition themed_once :: "element \<Rightarrow> bool" where
  "themed_once x = (has_class ''card'' x \<noteq> (has_tag ''code'' x \<or> has_tag ''pre'' x))"

definition themed_docs :: "bool \<Rightarrow> element \<Rightarrow> bool" where
  "themed_docs v d = (has_class ''darken'' d = v
     \<and> list_all (\<lambda>c. has_class ''darken'' c = v) (filter themed_once (descendants d)))"

definition in_sync_docs :: "element \<Rightarrow> bool" where
  "in_sync_docs d = list_all (\<lambda>c. has_class ''darken'' c = has_class ''darken'' d)
                 (filter themed_once (descendants d))"

definition unmarked_docs :: "element \<Rightarrow> bool" where
  "unmarked_docs d = (\<not> has_class ''darken'' d
     \<and> list_all (\<lambda>c. \<not> has_class ''darken'' c) (surfaces_docs d))"

text \<open>
  The control is the element that \<open>getElementById\<close> finds. \<open>control_leaf\<close>: it has no
  child elements (or there is none); \<open>control_plain\<close>: moreover it is not the header
  container. \<open>count_id\<close> counts the elements that carry an id.
\<close>

definition control_leaf :: "element \<Rightarrow> bool" where
  "control_leaf d = (case getElementById ''dark-button'' d of None \<Rightarrow> True | Some b \<Rightarrow> children b = [])"

definition control_plain :: "element \<Rightarrow> bool" where
  "control_plain d = (case getElementById ''dark-button'' d of None \<Rightarrow> True
     | Some b \<Rightarrow> children b = [] \<and> \<not> named_header b)"

definition count_id :: "string \<Rightarrow> element \<Rightarrow> nat" where
  "count_id i d = length (filter (has_id i) (elements d))"

subsection \<open>Notions used in the proofs\<close>

text \<open>
  \<open>bare\<close> forgets the text and the children of an element; a function on elements is
  \<open>shallow\<close> when it only depends on what \<open>bare\<close> keeps. \<open>darken_in_docs\<close> is what the
  three loops of \<open>docs/dark.js\<close> do to one descendant of the body, and \<open>flips_docs\<close>
  tells whether they change its marker.
\<close>

fun bare :: "element \<Rightarrow> element" where
  "bare (Element t i n cl tx h ch) = Element t i n cl [] h []"

definition shallow :: "(element \<Rightarrow> 'a) \<Rightarrow> bool" where
  "shallow g = (\<forall>e. g (bare e) = g e)"

definition darken_in_docs :: "element \<Rightarrow> element" where
  "darken_in_docs x =
     toggle_in (has_tag ''pre'') ''darken''
       (toggle_in (has_tag ''code'') ''darken'' (toggle_in (has_class ''card'') ''darken'' x))"

definition flips_docs :: "element \<Rightarrow> bool" where
  "flips_docs x = ((has_class ''card'' x \<noteq> has_tag ''code'' x) \<noteq> has_tag ''pre'' x)"

subsection \<open>Example pages\<close>

text \<open>
  \<open>sample_body\<close> has a header container that holds a control, a card with a \<open>pre\<close>
  and a \<open>code\<close> element inside, and a second card; \<open>plain_page\<close> has a header container
  and a card, and no control.
\<close>

definition sample_body :: element where
  "sample_body = Element ''body'' [] [] [] [] None
     [Element ''div'' ''header'' [] [] [] None
        [Element ''span'' ''dark-button'' [] [] [] None []],
      Element ''div'' [] [] [''card''] [] None
        [Element ''pre'' [] [] [] [] None [Element ''code'' [] [] [] [] None []]],
      Element ''div'' [] [] [''card''] [] None []]"

definition sample_page :: page where
  "sample_page = \<lparr>body = sample_body, localStorage = Map.empty, global_enabled = None\<rparr>"

definition sample_page_dark :: page where
  "sample_page_dark = \<lparr>body = sample_body, localStorage = [''darkmode_enabled'' \<mapsto> ''y''],
     global_enabled = None\<rparr>"

definition plain_page :: page where
  "plain_page = \<lparr>body = Element ''body'' [] [] [] [] None
       [Element ''div'' ''header'' [] [] [] None [],
        Element ''div'' [] [] [''card''] [] None []],
     localStorage = Map.empty, global_enabled = None\<rparr>"

text \<open>A page without a header container and without a control.\<close>

definition page_no_header :: page where
  "page_no_header = \<lparr>body = Element ''body'' [] [] [] [] None
       [Element ''div'' [] [] [''card''] [] None []],
     localStorage = Map.empty, global_enabled = None\<rparr>"

text \<open>A page that already holds an element with the id of the control.\<close>

definition page_with_control :: page where
  "page_with_control = \<lparr>body = Element ''body'' [] [] [] [] None
       [Element ''div'' ''header'' [] [] [] None [],
        Element ''span'' ''dark-button'' [] [] [] None []],
     localStorage = Map.empty, global_enabled = None\<rparr>"

text \<open>A page whose only card carries the marker in its markup, while the body does not.\<close>

definition page_marked_card :: page where
  "page_marked_card = \<lparr>body = Element ''body'' [] [] [] [] None
       [Element ''div'' [] [] [''card'', ''dark''] [] None []],
     localStorage = Map.empty, global_enabled = None\<rparr>"

text \<open>A page with a \<open>pre\<close> element of class \<open>card\<close>, loaded with the stored value \<open>y\<close>.\<close>

definition page_pre_card :: page where
  "page_pre_card = \<lparr>body = Element ''body'' [] [] [] [] None
       [Element ''pre'' [] [] [''card''] [] None []],
     localStorage = [''darkmode_enabled'' \<mapsto> ''y''], global_enabled = None\<rparr>"

text \<open>
  The same page with nothing stored, and the page a reload shows after one click on it:
  the same document with the storage that \<open>toggle_dark\<close> of \<open>docs/dark.js\<close> left.
\<close>

definition page_pre_card_light :: page where
  "page_pre_card_light = \<lparr>body = Element ''body'' [] [] [] [] None
       [Element ''pre'' [] [] [''card''] [] None []],
     localStorage = Map.empty, global_enabled = None\<rparr>"

definition page_pre_card_reloaded :: page where
  "page_pre_card_reloaded = \<lparr>body = body page_pre_card_light,
     localStorage = localStorage (snd (toggle_dark_docs page_pre_card_light)),
     global_enabled = None\<rparr>"

text \<open>A page whose body itself carries the id of the control.\<close>

definition page_body_control :: page where
  "page_body_control = \<lparr>body = Element ''body'' ''dark-button'' [] [] [] None
       [Element ''div'' [] [] [''card''] [] None []],
     localStorage = Map.empty, global_enabled = None\<rparr>"

text \<open>An empty body, nothing stored, no global named \<open>enabled\<close>.\<close>

definition page_empty :: page where
  "page_empty = \<lparr>body = Element ''body'' [] [] [] [] None [],
     localStorage = Map.empty, global_enabled = None\<rparr>"

section \<open>Lemmas\<close>

subsection \<open>Shallow functions and searches in lists\<close>

lemma shallow_has_class: "shallow (has_class c)"
  unfolding shallow_def has_class_def by (rule allI, case_tac e, simp)

lemma shallow_has_tag: "shallow (has_tag c)"
  unfolding shallow_def has_tag_def by (rule allI, case_tac e, simp)

lemma shallow_has_id: "shallow (has_id c)"
  unfolding shallow_def has_id_def by (rule allI, case_tac e, simp)

lemma shallow_named_header: "shallow named_header"
  unfolding shallow_def named_header_def has_tag_def by (rule allI, case_tac e, simp)

lemma shallowD: "shallow g \<Longrightarrow> g (bare e) = g e"
  by (simp add: shallow_def)

lemma shallow_children:
  "shallow g \<Longrightarrow> g (Element t i n cl tx h ch) = g (Element t i n cl tx' h ch')"
proof -
  assume s: "shallow g"
  have "g (Element t i n cl tx h ch) = g (bare (Element t i n cl tx h ch))"
    using s by (simp only: shallowD)
  also have "\<dots> = g (bare (Element t i n cl tx' h ch'))" by simp
  also have "\<dots> = g (Element t i n cl tx' h ch')" using s by (simp only: shallowD)
  finally show ?thesis .
qed

lemma find_map: "find Q (map g xs) = map_option g (find (Q \<circ> g) xs)"
  by (induction xs) simp_all

lemma find_append: "find Q (xs @ ys) = (case find Q xs of None \<Rightarrow> find Q ys | Some x \<Rightarrow> Some x)"
  by (induction xs) simp_all

lemma elements_root: "elements e = e # concat (map elements (children e))"
  by (cases e) simp

lemma elements_classList_toggle:
  "elements (classList_toggle m e) = classList_toggle m e # concat (map elements (children e))"
  by (cases e) simp

lemma elements_toggle_in: "elements (toggle_in P m e) = map (toggle_in P m) (elements e)"
proof (induction e)
  case (Element t i n cl tx h ch)
  have "concat (map elements (map (toggle_in P m) ch)) = map (toggle_in P m) (concat (map elements ch))"
    using Element.IH by (induction ch) simp_all
  then show ?case by (simp add: Let_def)
qed

lemma descendants_toggle_each:
  "descendants (toggle_each P m b) = map (toggle_in P m) (descendants b)"
  by (cases b) (simp add: descendants_def elements_toggle_in map_concat comp_def)

lemma descendants_classList_toggle: "descendants (classList_toggle m b) = descendants b"
  by (cases b) (simp add: descendants_def)

lemma has_class_classList_toggle:
  "has_class c (classList_toggle m e) = (if c = m then \<not> has_class m e else has_class c e)"
  by (cases e) (auto simp: has_class_def)

lemma has_class_toggle_in:
  "has_class c (toggle_in P m e) = (if c = m then has_class m e \<noteq> P e else has_class c e)"
  by (cases e) (auto simp: has_class_def Let_def)

lemma has_class_toggle_each: "has_class c (toggle_each P m e) = has_class c e"
  by (cases e) (simp add: has_class_def)

lemma has_tag_toggle_in: "has_tag t (toggle_in P m e) = has_tag t e"
  by (cases e) (simp add: has_tag_def Let_def)

lemma has_id_toggle_in: "has_id t (toggle_in P m e) = has_id t e"
  by (cases e) (simp add: has_id_def Let_def)

lemma children_toggle_in_Nil: "(children (toggle_in P m e) = []) = (children e = [])"
  by (cases e) (simp add: Let_def)

lemma list_ex_find_None: "(find P xs = None) = (\<not> list_ex P xs)"
  by (induction xs) auto

lemma update_first_none:
  "\<not> list_ex P (elements e) \<Longrightarrow> update_first P f e = e"
  "\<not> list_ex P (concat (map elements xs)) \<Longrightarrow> update_first_list P f xs = xs"
proof (induction P f e and P f xs rule: update_first_update_first_list.induct)
  case (1 P f t i n cl tx h ch)
  then show ?case by simp
next
  case (2 P f)
  then show ?case by simp
next
  case (3 P f x xs)
  then show ?case by simp
qed

lemma find_update_first:
  "shallow P \<Longrightarrow> (\<forall>x. P x \<longrightarrow> P (f x)) \<Longrightarrow>
     find P (elements (update_first P f e)) = map_option f (find P (elements e))"
  "shallow P \<Longrightarrow> (\<forall>x. P x \<longrightarrow> P (f x)) \<Longrightarrow>
     find P (concat (map elements (update_first_list P f xs)))
       = map_option f (find P (concat (map elements xs)))"
proof (induction P f e and P f xs rule: update_first_update_first_list.induct)
  case (1 P f t i n cl tx h ch)
  show ?case
  proof (cases "P (Element t i n cl tx h ch)")
    case True
    then have "P (f (Element t i n cl tx h ch))" using "1.prems"(2) by blast
    then have "find P (elements (f (Element t i n cl tx h ch))) = Some (f (Element t i n cl tx h ch))"
      by (subst elements_root) simp
    then show ?thesis using True by simp
  next
    case False
    then have "\<not> P (Element t i n cl tx h (update_first_list P f ch))"
      using shallow_children[OF "1.prems"(1)] by blast
    then show ?thesis using False "1.IH"[OF False "1.prems"] by simp
  qed
next
  case (2 P f)
  then show ?case by simp
next
  case (3 P f x xs)
  show ?case
  proof (cases "list_ex P (elements x)")
    case True
    then obtain y where y: "find P (elements x) = Some y"
      using list_ex_find_None[of P "elements x"] by (cases "find P (elements x)") auto
    then show ?thesis using True "3.IH"(1)[OF True "3.prems"] by (simp add: find_append)
  next
    case False
    then have "find P (elements x) = None" by (simp add: list_ex_find_None)
    then show ?thesis using False "3.IH"(2)[OF False "3.prems"] by (simp add: find_append)
  qed
qed

text \<open>
  The skeleton of a document is the list of its bare elements in tree order. Setting the
  text of a childless element keeps it; setting the text of any element removes entries
  and adds none.
\<close>

lemma skeleton_update_first_leaf:
  "shallow P \<Longrightarrow> (\<forall>x. bare (f x) = bare x \<and> children (f x) = []) \<Longrightarrow>
   (\<forall>x. find P (elements e) = Some x \<longrightarrow> children x = []) \<Longrightarrow>
     map bare (elements (update_first P f e)) = map bare (elements e)"
  "shallow P \<Longrightarrow> (\<forall>x. bare (f x) = bare x \<and> children (f x) = []) \<Longrightarrow>
   (\<forall>x. find P (concat (map elements xs)) = Some x \<longrightarrow> children x = []) \<Longrightarrow>
     map bare (concat (map elements (update_first_list P f xs)))
       = map bare (concat (map elements xs))"
proof (induction P f e and P f xs rule: update_first_update_first_list.induct)
  case (1 P f t i n cl tx h ch)
  show ?case
  proof (cases "P (Element t i n cl tx h ch)")
    case True
    then have "ch = []" using "1.prems"(3) by simp
    moreover have "elements (f (Element t i n cl tx h ch)) = [f (Element t i n cl tx h ch)]"
      using "1.prems"(2) by (subst elements_root) simp
    ultimately show ?thesis using True "1.prems"(2) by simp
  next
    case False
    then show ?thesis using "1.IH"[OF False "1.prems"(1,2)] "1.prems"(3) by simp
  qed
next
  case (2 P f)
  then show ?case by simp
next
  case (3 P f x xs)
  show ?case
  proof (cases "list_ex P (elements x)")
    case True
    then obtain y where y: "find P (elements x) = Some y"
      using list_ex_find_None[of P "elements x"] by (cases "find P (elements x)") auto
    have "\<forall>z. find P (elements x) = Some z \<longrightarrow> children z = []"
      using "3.prems"(3) y by (simp add: find_append)
    then show ?thesis using True "3.IH"(1)[OF True "3.prems"(1,2)] by simp
  next
    case False
    then have n: "find P (elements x) = None" by (simp add: list_ex_find_None)
    have "\<forall>z. find P (concat (map elements xs)) = Some z \<longrightarrow> children z = []"
      using "3.prems"(3) n by (simp add: find_append)
    then show ?thesis using False "3.IH"(2)[OF False "3.prems"(1,2)] by simp
  qed
qed

lemma skeleton_update_first_subset:
  "shallow P \<Longrightarrow> (\<forall>x. bare (f x) = bare x \<and> children (f x) = []) \<Longrightarrow>
     set (map bare (elements (update_first P f e))) \<subseteq> set (map bare (elements e))"
  "shallow P \<Longrightarrow> (\<forall>x. bare (f x) = bare x \<and> children (f x) = []) \<Longrightarrow>
     set (map bare (concat (map elements (update_first_list P f xs))))
       \<subseteq> set (map bare (concat (map elements xs)))"
proof (induction P f e and P f xs rule: update_first_update_first_list.induct)
  case (1 P f t i n cl tx h ch)
  show ?case
  proof (cases "P (Element t i n cl tx h ch)")
    case True
    have "elements (f (Element t i n cl tx h ch)) = [f (Element t i n cl tx h ch)]"
      using "1.prems"(2) by (subst elements_root) simp
    then show ?thesis using True "1.prems"(2) by simp
  next
    case False
    then show ?thesis using "1.IH"[OF False "1.prems"] by auto
  qed
next
  case (2 P f)
  then show ?case by simp
next
  case (3 P f x xs)
  show ?case
  proof (cases "list_ex P (elements x)")
    case True
    then show ?thesis using "3.IH"(1)[OF True "3.prems"] by auto
  next
    case False
    then show ?thesis using "3.IH"(2)[OF False "3.prems"] by auto
  qed
qed

lemma set_textContent_bare_leaf:
  "\<forall>x. bare (set_textContent c x) = bare x \<and> children (set_textContent c x) = []"
  by (rule allI, case_tac x, simp)

lemma bare_update_first_set_textContent:
  "bare (update_first P (set_textContent c) e) = bare e"
  by (cases e) simp

lemma descendants_tl: "descendants d = tl (elements d)"
  by (cases d) (simp add: descendants_def)

lemma shallow_filter_map:
  "shallow Q \<Longrightarrow> shallow g \<Longrightarrow> map g (filter Q (map bare xs)) = map g (filter Q xs)"
  by (induction xs) (simp_all add: shallowD)

lemma skeleton_observe:
  assumes "map bare (elements d') = map bare (elements d)" and "shallow Q" and "shallow g"
  shows "map g (filter Q (descendants d')) = map g (filter Q (descendants d))"
proof -
  have "map bare (descendants d') = map bare (descendants d)"
    using assms(1) by (simp add: descendants_tl map_tl)
  then have "map g (filter Q (map bare (descendants d'))) = map g (filter Q (map bare (descendants d)))"
    by simp
  then show ?thesis using assms(2,3) by (simp add: shallow_filter_map)
qed

subsection \<open>toggle_each\<close>

lemma has_id_toggle_each: "has_id i (toggle_each P m b) = has_id i b"
  by (cases b) (simp add: has_id_def)

lemma has_id_classList_toggle: "has_id i (classList_toggle m b) = has_id i b"
  by (cases b) (simp add: has_id_def)

lemma children_toggle_each_Nil: "(children (toggle_each P m b) = []) = (children b = [])"
  by (cases b) simp

lemma children_classList_toggle: "children (classList_toggle m b) = children b"
  by (cases b) simp

lemma elements_toggle_each:
  "elements (toggle_each P m b) = toggle_each P m b # map (toggle_in P m) (descendants b)"
  by (subst elements_root) (cases b, simp add: descendants_def elements_toggle_in map_concat comp_def)

lemma find_has_id_toggle_in:
  "find (has_id i) (map (toggle_in P m) xs) = map_option (toggle_in P m) (find (has_id i) xs)"
  by (simp add: find_map comp_def has_id_toggle_in)

lemma control_leaf_toggle_each: "control_leaf (toggle_each P m b) = control_leaf b"
proof (cases "has_id ''dark-button'' b")
  case True
  then show ?thesis
    by (simp add: control_leaf_def getElementById_def elements_toggle_each has_id_toggle_each
        children_toggle_each_Nil elements_root[of b])
next
  case False
  then show ?thesis
    by (cases "find (has_id ''dark-button'') (descendants b)")
       (simp_all add: control_leaf_def getElementById_def elements_toggle_each has_id_toggle_each
        find_has_id_toggle_in children_toggle_in_Nil elements_root[of b] descendants_def[symmetric])
qed

lemma control_leaf_classList_toggle: "control_leaf (classList_toggle m b) = control_leaf b"
  by (cases "has_id ''dark-button'' b")
     (simp_all add: control_leaf_def getElementById_def elements_classList_toggle has_id_classList_toggle
        children_classList_toggle elements_root[of b])

lemma control_leaf_darken: "control_leaf (darken b) = control_leaf b"
  by (simp add: darken_def control_leaf_toggle_each control_leaf_classList_toggle)

lemma control_leaf_darken_docs: "control_leaf (darken_docs b) = control_leaf b"
  by (simp add: darken_docs_def control_leaf_toggle_each control_leaf_classList_toggle)

lemma has_class_darken: "has_class ''dark'' (darken b) = (\<not> has_class ''dark'' b)"
  by (simp add: darken_def has_class_toggle_each has_class_classList_toggle)

lemma has_class_darken_docs: "has_class ''darken'' (darken_docs b) = (\<not> has_class ''darken'' b)"
  by (simp add: darken_docs_def has_class_toggle_each has_class_classList_toggle)

lemma descendants_darken:
  "descendants (darken b) = map (toggle_in (has_class ''card'') ''dark'') (descendants b)"
  by (simp add: darken_def descendants_toggle_each descendants_classList_toggle)

lemma filter_has_class_toggle_in:
  "c \<noteq> m \<Longrightarrow> filter (has_class c) (map (toggle_in P m) xs) = map (toggle_in P m) (filter (has_class c) xs)"
  by (simp add: filter_map comp_def has_class_toggle_in)

lemma surface_markers_darken: "surface_markers (darken b) = map Not (surface_markers b)"
  by (simp add: surface_markers_def getElementsByClassName_def descendants_darken
      filter_has_class_toggle_in comp_def has_class_toggle_in)

subsection \<open>Writing the label\<close>

lemma control_leaf_update:
  "control_leaf (update_first (has_id ''dark-button'') (set_textContent c) d)"
proof -
  have "\<forall>x. has_id ''dark-button'' x \<longrightarrow> has_id ''dark-button'' (set_textContent c x)"
    by (rule allI, case_tac x, simp add: has_id_def)
  then have "find (has_id ''dark-button'') (elements (update_first (has_id ''dark-button'') (set_textContent c) d))
      = map_option (set_textContent c) (find (has_id ''dark-button'') (elements d))"
    using find_update_first(1)[OF shallow_has_id] by blast
  moreover have "\<And>x. children (set_textContent c x) = []"
    using set_textContent_bare_leaf by blast
  ultimately show ?thesis
    by (cases "find (has_id ''dark-button'') (elements d)")
       (simp_all add: control_leaf_def getElementById_def)
qed

lemma control_leaf_set_button_text: "control_leaf (set_button_text e d)"
  by (cases "getElementById ''dark-button'' d")
     (simp_all add: set_button_text_def Let_def control_leaf_update, simp add: control_leaf_def)

lemma control_leaf_set_button_text_docs: "control_leaf (set_button_text_docs e d)"
  by (cases "getElementById ''dark-button'' d")
     (simp_all add: set_button_text_docs_def Let_def control_leaf_update, simp add: control_leaf_def)

lemma skeleton_update:
  "control_leaf d \<Longrightarrow>
     map bare (elements (update_first (has_id ''dark-button'') (set_textContent c) d))
       = map bare (elements d)"
  by (rule skeleton_update_first_leaf(1)[OF shallow_has_id set_textContent_bare_leaf])
     (simp add: control_leaf_def getElementById_def split: option.splits)

lemma skeleton_set_button_text:
  "control_leaf d \<Longrightarrow> map bare (elements (set_button_text e d)) = map bare (elements d)"
  by (cases "getElementById ''dark-button'' d")
     (simp_all add: set_button_text_def Let_def skeleton_update)

lemma skeleton_set_button_text_docs:
  "control_leaf d \<Longrightarrow> map bare (elements (set_button_text_docs e d)) = map bare (elements d)"
  by (cases "getElementById ''dark-button'' d")
     (simp_all add: set_button_text_docs_def Let_def skeleton_update)

lemma subset_set_button_text:
  "set (map bare (elements (set_button_text e d))) \<subseteq> set (map bare (elements d))"
  using skeleton_update_first_subset(1)[OF shallow_has_id set_textContent_bare_leaf]
  by (cases "getElementById ''dark-button'' d") (simp_all add: set_button_text_def Let_def)

lemma subset_set_button_text_docs:
  "set (map bare (elements (set_button_text_docs e d))) \<subseteq> set (map bare (elements d))"
  using skeleton_update_first_subset(1)[OF shallow_has_id set_textContent_bare_leaf]
  by (cases "getElementById ''dark-button'' d") (simp_all add: set_button_text_docs_def Let_def)

lemma bare_set_button_text: "bare (set_button_text e d) = bare d"
  by (cases "getElementById ''dark-button'' d")
     (simp_all add: set_button_text_def Let_def bare_update_first_set_textContent)

lemma bare_set_button_text_docs: "bare (set_button_text_docs e d) = bare d"
  by (cases "getElementById ''dark-button'' d")
     (simp_all add: set_button_text_docs_def Let_def bare_update_first_set_textContent)

lemma has_class_set_button_text: "has_class m (set_button_text e d) = has_class m d"
  using shallowD[OF shallow_has_class, of m "set_button_text e d"]
        shallowD[OF shallow_has_class, of m d]
  by (simp add: bare_set_button_text)

lemma has_class_set_button_text_docs: "has_class m (set_button_text_docs e d) = has_class m d"
  using shallowD[OF shallow_has_class, of m "set_button_text_docs e d"]
        shallowD[OF shallow_has_class, of m d]
  by (simp add: bare_set_button_text_docs)

lemma surface_markers_set_button_text:
  "control_leaf d \<Longrightarrow> surface_markers (set_button_text e d) = surface_markers d"
  unfolding surface_markers_def getElementsByClassName_def
  by (rule skeleton_observe[OF skeleton_set_button_text shallow_has_class shallow_has_class])

subsection \<open>One toggle, first variant\<close>

lemma body_toggle_dark:
  "body (snd (toggle_dark p))
     = set_button_text (if get_dark_state p = ''y'' then ''n'' else ''y'') (darken (body p))"
  by (simp add: toggle_dark_def Let_def)

lemma get_dark_state_toggle_dark:
  "(get_dark_state (snd (toggle_dark p)) = ''y'') = (get_dark_state p \<noteq> ''y'')"
  by (simp add: toggle_dark_def Let_def get_dark_state_def getItem_def setItem_def or_n_def)

lemma control_leaf_toggle_dark: "control_leaf (body (snd (toggle_dark p)))"
  by (simp add: body_toggle_dark control_leaf_set_button_text)

lemma observable_toggle_dark:
  "control_leaf (body p) \<Longrightarrow>
     observable (snd (toggle_dark p))
       = (get_dark_state p \<noteq> ''y'', \<not> has_class ''dark'' (body p), map Not (surface_markers (body p)))"
  by (simp add: observable_def get_dark_state_toggle_dark body_toggle_dark
      has_class_set_button_text has_class_darken surface_markers_set_button_text
      control_leaf_darken surface_markers_darken)

lemma observable_toggle_dark_twice:
  assumes "control_leaf (body p)"
  shows "observable (snd (toggle_dark (snd (toggle_dark p)))) = observable p"
proof -
  have "observable (snd (toggle_dark (snd (toggle_dark p))))
        = (get_dark_state (snd (toggle_dark p)) \<noteq> ''y'',
           \<not> has_class ''dark'' (body (snd (toggle_dark p))),
           map Not (surface_markers (body (snd (toggle_dark p)))))"
    by (rule observable_toggle_dark[OF control_leaf_toggle_dark])
  moreover have "observable (snd (toggle_dark p))
        = (get_dark_state p \<noteq> ''y'', \<not> has_class ''dark'' (body p), map Not (surface_markers (body p)))"
    by (rule observable_toggle_dark[OF assms])
  ultimately show ?thesis
    by (simp add: observable_def comp_def)
qed

lemma toggles_even:
  "control_leaf (body p) \<Longrightarrow> observable (toggles (2 * k) p) = observable p"
proof (induction k arbitrary: p)
  case 0
  then show ?case by simp
next
  case (Suc k)
  have "observable (toggles (2 * Suc k) p)
        = observable (toggles (2 * k) (snd (toggle_dark (snd (toggle_dark p)))))"
    by simp
  also have "\<dots> = observable (snd (toggle_dark (snd (toggle_dark p))))"
    by (rule Suc.IH[OF control_leaf_toggle_dark])
  also have "\<dots> = observable p"
    by (rule observable_toggle_dark_twice[OF Suc.prems])
  finally show ?case .
qed

lemma body_dark_init:
  "body (snd (dark_init p))
     = set_button_text (get_dark_state p)
         (let d = (if get_dark_state p = ''y'' then darken (body p) else body p)
          in if header_in d then prepend_header new_span d else d)"
  by (simp add: dark_init_def Let_def)

lemma control_leaf_dark_init: "control_leaf (body (snd (dark_init p)))"
  by (simp only: body_dark_init control_leaf_set_button_text)

lemma descendants_darken_docs:
  "descendants (darken_docs b) = map darken_in_docs (descendants b)"
  by (simp add: darken_docs_def descendants_toggle_each descendants_classList_toggle
      darken_in_docs_def comp_def)

lemma has_class_darken_in_docs:
  "has_class c (darken_in_docs x)
     = (if c = ''darken'' then has_class ''darken'' x \<noteq> flips_docs x else has_class c x)"
  by (auto simp: darken_in_docs_def flips_docs_def has_class_toggle_in has_tag_toggle_in)

lemma has_tag_darken_in_docs: "has_tag t (darken_in_docs x) = has_tag t x"
  by (simp add: darken_in_docs_def has_tag_toggle_in)

lemma flips_docs_darken_in_docs: "flips_docs (darken_in_docs x) = flips_docs x"
  by (simp add: flips_docs_def has_class_darken_in_docs has_tag_darken_in_docs)

lemma marker_darken_in_docs_twice:
  "has_class ''darken'' (darken_in_docs (darken_in_docs x)) = has_class ''darken'' x"
  by (auto simp: has_class_darken_in_docs flips_docs_darken_in_docs)

lemma shallow_flips_docs: "shallow flips_docs"
  using shallow_has_class[of "''card''"] shallow_has_tag[of "''code''"] shallow_has_tag[of "''pre''"]
  by (simp add: shallow_def flips_docs_def)

lemma shallow_marker_darken_in_docs: "shallow (\<lambda>x. has_class ''darken'' (darken_in_docs x))"
  using shallow_has_class[of "''darken''"] shallow_flips_docs
  by (simp add: shallow_def has_class_darken_in_docs)

text \<open>The body after one toggle of \<open>docs/dark.js\<close>.\<close>

lemma body_toggle_dark_docs:
  "body (snd (toggle_dark_docs p))
     = (case global_enabled p of None \<Rightarrow> darken_docs (body p)
        | Some v \<Rightarrow> set_button_text_docs v (darken_docs (body p)))"
  by (simp add: toggle_dark_docs_def Let_def split: option.splits)

lemma get_dark_state_toggle_dark_docs:
  "(get_dark_state (snd (toggle_dark_docs p)) = ''y'') = (get_dark_state p \<noteq> ''y'')"
  by (simp add: toggle_dark_docs_def Let_def get_dark_state_def getItem_def setItem_def or_n_def
      split: option.splits)

lemma control_leaf_toggle_dark_docs:
  "control_leaf (body p) \<Longrightarrow> control_leaf (body (snd (toggle_dark_docs p)))"
  by (simp add: body_toggle_dark_docs control_leaf_darken_docs control_leaf_set_button_text_docs
      split: option.splits)

lemma has_class_body_toggle_dark_docs:
  "has_class ''darken'' (body (snd (toggle_dark_docs p))) = (\<not> has_class ''darken'' (body p))"
  by (simp add: body_toggle_dark_docs has_class_set_button_text_docs has_class_darken_docs
      split: option.splits)

lemma observe_toggle_dark_docs:
  assumes leaf: "control_leaf (body p)" and q: "shallow Q" and h: "shallow h"
    and qd: "\<And>x. Q (darken_in_docs x) = Q x"
  shows "map h (filter Q (descendants (body (snd (toggle_dark_docs p)))))
         = map (\<lambda>x. h (darken_in_docs x)) (filter Q (descendants (body p)))"
proof -
  have d: "map h (filter Q (descendants (darken_docs (body p))))
           = map (\<lambda>x. h (darken_in_docs x)) (filter Q (descendants (body p)))"
    by (simp add: descendants_darken_docs filter_map comp_def qd)
  show ?thesis
  proof (cases "global_enabled p")
    case None
    then show ?thesis using d by (simp add: body_toggle_dark_docs)
  next
    case (Some v)
    have "control_leaf (darken_docs (body p))" using leaf by (simp add: control_leaf_darken_docs)
    then have "map h (filter Q (descendants (set_button_text_docs v (darken_docs (body p)))))
          = map h (filter Q (descendants (darken_docs (body p))))"
      by (rule skeleton_observe[OF skeleton_set_button_text_docs q h])
    then show ?thesis using d Some by (simp add: body_toggle_dark_docs)
  qed
qed

lemma markers_toggle_dark_docs_twice:
  assumes leaf: "control_leaf (body p)" and q: "shallow Q"
    and qd: "\<And>x. Q (darken_in_docs x) = Q x"
  shows "map (has_class ''darken'') (filter Q (descendants (body (snd (toggle_dark_docs (snd (toggle_dark_docs p)))))))
         = map (has_class ''darken'') (filter Q (descendants (body p)))"
proof -
  have "map (has_class ''darken'') (filter Q (descendants (body (snd (toggle_dark_docs (snd (toggle_dark_docs p)))))))
        = map (\<lambda>x. has_class ''darken'' (darken_in_docs x))
            (filter Q (descendants (body (snd (toggle_dark_docs p)))))"
    by (rule observe_toggle_dark_docs[OF control_leaf_toggle_dark_docs[OF leaf] q shallow_has_class qd])
  also have "\<dots> = map (\<lambda>x. has_class ''darken'' (darken_in_docs (darken_in_docs x)))
            (filter Q (descendants (body p)))"
    by (rule observe_toggle_dark_docs[OF leaf q shallow_marker_darken_in_docs qd])
  finally show ?thesis by (simp add: marker_darken_in_docs_twice)
qed

lemma observable_docs_toggle_twice:
  assumes leaf: "control_leaf (body p)"
  shows "observable_docs (snd (toggle_dark_docs (snd (toggle_dark_docs p)))) = observable_docs p"
proof -
  have c: "\<And>x. has_class ''card'' (darken_in_docs x) = has_class ''card'' x"
    by (simp add: has_class_darken_in_docs)
  have 1: "map (has_class ''darken'') (getElementsByClassName ''card'' (body (snd (toggle_dark_docs (snd (toggle_dark_docs p))))))
        = map (has_class ''darken'') (getElementsByClassName ''card'' (body p))"
    unfolding getElementsByClassName_def
    by (rule markers_toggle_dark_docs_twice[OF leaf shallow_has_class c])
  have 2: "\<And>t. map (has_class ''darken'') (getElementsByTagName t (body (snd (toggle_dark_docs (snd (toggle_dark_docs p))))))
        = map (has_class ''darken'') (getElementsByTagName t (body p))"
    unfolding getElementsByTagName_def
    by (rule markers_toggle_dark_docs_twice[OF leaf shallow_has_tag has_tag_darken_in_docs])
  show ?thesis
    by (simp add: observable_docs_def surface_markers_docs_def surfaces_docs_def 1 2
        get_dark_state_toggle_dark_docs has_class_body_toggle_dark_docs)
qed

lemma toggles_docs_even:
  "control_leaf (body p) \<Longrightarrow> observable_docs (toggles_docs (2 * k) p) = observable_docs p"
proof (induction k arbitrary: p)
  case 0
  then show ?case by simp
next
  case (Suc k)
  have l2: "control_leaf (body (snd (toggle_dark_docs (snd (toggle_dark_docs p)))))"
    by (intro control_leaf_toggle_dark_docs Suc.prems)
  have "observable_docs (toggles_docs (2 * Suc k) p)
        = observable_docs (toggles_docs (2 * k) (snd (toggle_dark_docs (snd (toggle_dark_docs p)))))"
    by simp
  also have "\<dots> = observable_docs (snd (toggle_dark_docs (snd (toggle_dark_docs p))))"
    by (rule Suc.IH[OF l2])
  also have "\<dots> = observable_docs p"
    by (rule observable_docs_toggle_twice[OF Suc.prems])
  finally show ?case .
qed

lemma body_dark_init_docs:
  "body (snd (dark_init_docs p))
     = set_button_text_docs (get_dark_state p)
         (if get_dark_state p = ''y'' then darken_docs (prepend new_div (body p))
          else prepend new_div (body p))"
  by (simp add: dark_init_docs_def Let_def get_dark_state_def)

lemma control_leaf_dark_init_docs: "control_leaf (body (snd (dark_init_docs p)))"
  by (simp only: body_dark_init_docs control_leaf_set_button_text_docs)

lemma all_surfaces_iff:
  assumes "shallow C" and "shallow R" and "R d"
  shows "list_all R (filter C (descendants d)) = (\<forall>x \<in> set (map bare (elements d)). C x \<longrightarrow> R x)"
proof -
  have e: "elements d = d # descendants d"
    by (subst elements_root) (simp add: descendants_def)
  have "list_all R (filter C (descendants d)) = (\<forall>x \<in> set (descendants d). C x \<longrightarrow> R x)"
    by (auto simp: list_all_iff)
  also have "\<dots> = (\<forall>x \<in> set (elements d). C x \<longrightarrow> R x)"
    using assms(3) by (simp add: e)
  also have "\<dots> = (\<forall>x \<in> set (elements d). C (bare x) \<longrightarrow> R (bare x))"
    using assms(1,2) by (simp add: shallowD)
  also have "\<dots> = (\<forall>x \<in> set (map bare (elements d)). C x \<longrightarrow> R x)"
    by simp
  finally show ?thesis .
qed

lemma all_surfaces_subset:
  assumes sub: "set (map bare (elements d')) \<subseteq> set (map bare (elements d))"
    and c: "shallow C" and r: "shallow R" and rd: "R d" and rd': "R d'"
    and a: "list_all R (filter C (descendants d))"
  shows "list_all R (filter C (descendants d'))"
proof -
  have "\<forall>x \<in> set (map bare (elements d)). C x \<longrightarrow> R x"
    using a all_surfaces_iff[OF c r rd] by simp
  then have "\<forall>x \<in> set (map bare (elements d')). C x \<longrightarrow> R x"
    using sub by blast
  then show ?thesis using all_surfaces_iff[OF c r rd'] by simp
qed

lemma shallow_marker_is: "shallow (\<lambda>c. has_class m c = v)"
  using shallow_has_class[of m] by (simp add: shallow_def)

lemma shallow_themed_once: "shallow themed_once"
  using shallow_has_class[of "''card''"] shallow_has_tag[of "''code''"] shallow_has_tag[of "''pre''"]
  by (simp add: shallow_def themed_once_def)

subsection \<open>The label step keeps a uniform theme\<close>

lemma themed_set_button_text:
  assumes "themed v d"
  shows "themed v (set_button_text e d)"
proof -
  have r: "has_class ''dark'' d = v" and a: "list_all (\<lambda>c. has_class ''dark'' c = v)
      (filter (has_class ''card'') (descendants d))"
    using assms by (simp_all add: themed_def getElementsByClassName_def)
  have r': "has_class ''dark'' (set_button_text e d) = v"
    using r by (simp add: has_class_set_button_text)
  have "list_all (\<lambda>c. has_class ''dark'' c = v)
      (filter (has_class ''card'') (descendants (set_button_text e d)))"
    by (rule all_surfaces_subset[OF subset_set_button_text shallow_has_class shallow_marker_is r r' a])
  then show ?thesis using r' by (simp add: themed_def getElementsByClassName_def)
qed

lemma themed_docs_set_button_text_docs:
  assumes "themed_docs v d"
  shows "themed_docs v (set_button_text_docs e d)"
proof -
  have r: "has_class ''darken'' d = v" and a: "list_all (\<lambda>c. has_class ''darken'' c = v)
      (filter themed_once (descendants d))"
    using assms by (simp_all add: themed_docs_def)
  have r': "has_class ''darken'' (set_button_text_docs e d) = v"
    using r by (simp add: has_class_set_button_text_docs)
  have "list_all (\<lambda>c. has_class ''darken'' c = v)
      (filter themed_once (descendants (set_button_text_docs e d)))"
    by (rule all_surfaces_subset[OF subset_set_button_text_docs shallow_themed_once shallow_marker_is r r' a])
  then show ?thesis using r' by (simp add: themed_docs_def)
qed

subsection \<open>The visual effect flips a uniform theme\<close>

lemma themed_darken: "themed v d \<Longrightarrow> themed (\<not> v) (darken d)"
  by (auto simp: themed_def has_class_darken getElementsByClassName_def descendants_darken
      filter_has_class_toggle_in list_all_iff has_class_toggle_in)

lemma themed_once_darken_in_docs: "themed_once (darken_in_docs x) = themed_once x"
  by (simp add: themed_once_def has_class_darken_in_docs has_tag_darken_in_docs)

lemma themed_once_flips: "themed_once x \<Longrightarrow> flips_docs x"
  by (auto simp: themed_once_def flips_docs_def has_tag_def)

lemma themed_docs_darken_docs: "themed_docs v d \<Longrightarrow> themed_docs (\<not> v) (darken_docs d)"
  by (auto simp: themed_docs_def has_class_darken_docs descendants_darken_docs filter_map comp_def
      themed_once_darken_in_docs list_all_iff has_class_darken_in_docs themed_once_flips)

subsection \<open>Inserting the control keeps a uniform theme\<close>

lemma bare_prepend: "bare (prepend s e) = bare e"
  by (cases e) simp

lemma elements_prepend: "elements (prepend s e) = prepend s e # elements s @ descendants e"
  by (cases e) (simp add: descendants_def)

lemma skeleton_prepend_subset:
  "set (map bare (elements (update_first Q (prepend s) e)))
     \<subseteq> set (map bare (elements s)) \<union> set (map bare (elements e))"
  "set (map bare (concat (map elements (update_first_list Q (prepend s) xs))))
     \<subseteq> set (map bare (elements s)) \<union> set (map bare (concat (map elements xs)))"
proof (induction Q "prepend s" e and Q "prepend s" xs rule: update_first_update_first_list.induct)
  case (1 P t i n cl tx h ch)
  then show ?case by auto
next
  case (2 P)
  then show ?case by simp
next
  case (3 P x xs)
  show ?case
  proof (cases "list_ex P (elements x)")
    case True
    have "set (map bare (elements (update_first P (prepend s) x)))
          \<subseteq> set (map bare (elements s)) \<union> set (map bare (elements x))"
      using 3(1)[OF True] .
    then show ?thesis using True by (simp add: image_Un) blast
  next
    case False
    have "set (map bare (concat (map elements (update_first_list P (prepend s) xs))))
          \<subseteq> set (map bare (elements s)) \<union> set (map bare (concat (map elements xs)))"
      using 3(2)[OF False] .
    then show ?thesis using False by (simp add: image_Un) blast
  qed
qed

lemma skeleton_prepend_header_subset:
  "set (map bare (elements (prepend_header s d)))
     \<subseteq> set (map bare (elements s)) \<union> set (map bare (elements d))"
  using skeleton_prepend_subset(2)[of named_header s "children d"]
  by (cases d) (simp, blast)

lemma in_sync_themed: "in_sync d = themed (has_class ''dark'' d) d"
  by (simp add: in_sync_def themed_def)

lemma in_sync_docs_themed: "in_sync_docs d = themed_docs (has_class ''darken'' d) d"
  by (simp add: in_sync_docs_def themed_docs_def)

lemma themed_in_sync: "themed v d \<Longrightarrow> in_sync d"
  by (auto simp: in_sync_def themed_def)

lemma themed_docs_in_sync: "themed_docs v d \<Longrightarrow> in_sync_docs d"
  by (auto simp: in_sync_docs_def themed_docs_def)

lemma has_class_prepend_header: "has_class m (prepend_header s d) = has_class m d"
  by (cases d) (simp add: has_class_def)

lemma has_class_prepend: "has_class m (prepend s d) = has_class m d"
  by (cases d) (simp add: has_class_def)

lemma descendants_prepend: "descendants (prepend s d) = elements s @ descendants d"
  by (cases d) (simp add: descendants_def)

lemma surfaces_prepend_header:
  assumes c: "shallow C" and r: "shallow R" and rd: "R d" and rd': "R (prepend_header new_span d)"
    and n: "\<not> C new_span"
    and a: "list_all R (filter C (descendants d))"
  shows "list_all R (filter C (descendants (prepend_header new_span d)))"
proof -
  have "\<forall>x \<in> set (map bare (elements d)). C x \<longrightarrow> R x"
    using a all_surfaces_iff[OF c r rd] by simp
  moreover have "\<not> C (bare new_span)" using n c by (simp add: shallowD)
  moreover have "set (map bare (elements new_span)) = {bare new_span}"
    by (simp add: new_span_def)
  ultimately have "\<forall>x \<in> set (map bare (elements (prepend_header new_span d))). C x \<longrightarrow> R x"
    using skeleton_prepend_header_subset[of new_span d] by (auto simp: subset_iff)
  then show ?thesis using all_surfaces_iff[OF c r rd'] by simp
qed

lemma themed_prepend_header:
  assumes "themed v d"
  shows "themed v (prepend_header new_span d)"
proof -
  have r: "has_class ''dark'' d = v" and a: "list_all (\<lambda>c. has_class ''dark'' c = v)
      (filter (has_class ''card'') (descendants d))"
    using assms by (simp_all add: themed_def getElementsByClassName_def)
  have r': "has_class ''dark'' (prepend_header new_span d) = v"
    using r by (simp add: has_class_prepend_header)
  have n: "\<not> has_class ''card'' new_span" by (simp add: new_span_def has_class_def)
  have "list_all (\<lambda>c. has_class ''dark'' c = v)
      (filter (has_class ''card'') (descendants (prepend_header new_span d)))"
    by (rule surfaces_prepend_header[OF shallow_has_class shallow_marker_is r r' n a])
  then show ?thesis using r' by (simp add: themed_def getElementsByClassName_def)
qed

lemma themed_once_new_div: "\<not> themed_once new_div"
  by (simp add: new_div_def themed_once_def has_class_def has_tag_def)

lemma themed_docs_prepend: "themed_docs v d \<Longrightarrow> themed_docs v (prepend new_div d)"
  by (simp add: themed_docs_def has_class_prepend descendants_prepend themed_once_new_div
      elements_root[of new_div]) (simp add: new_div_def)

lemma themed_dark_init:
  assumes "themed v (body p)"
  shows "themed (v \<noteq> (get_dark_state p = ''y'')) (body (snd (dark_init p)))"
proof -
  let ?d = "if get_dark_state p = ''y'' then darken (body p) else body p"
  have 1: "themed (v \<noteq> (get_dark_state p = ''y'')) ?d"
    using assms themed_darken[of v "body p"] by auto
  then have "themed (v \<noteq> (get_dark_state p = ''y''))
               (if header_in ?d then prepend_header new_span ?d else ?d)"
    using themed_prepend_header by presburger
  then show ?thesis
    by (simp only: body_dark_init Let_def themed_set_button_text)
qed

lemma themed_docs_dark_init_docs:
  assumes "themed_docs v (body p)"
  shows "themed_docs (v \<noteq> (get_dark_state p = ''y'')) (body (snd (dark_init_docs p)))"
proof -
  have 0: "themed_docs v (prepend new_div (body p))"
    using assms by (rule themed_docs_prepend)
  have "themed_docs (v \<noteq> (get_dark_state p = ''y''))
     (if get_dark_state p = ''y'' then darken_docs (prepend new_div (body p))
          else prepend new_div (body p))"
    using 0 themed_docs_darken_docs[OF 0] by auto
  then show ?thesis
    by (simp only: body_dark_init_docs themed_docs_set_button_text_docs)
qed

lemma themed_toggle_dark: "themed v (body p) \<Longrightarrow> themed (\<not> v) (body (snd (toggle_dark p)))"
  by (simp only: body_toggle_dark themed_set_button_text themed_darken)

lemma themed_docs_toggle_dark_docs:
  "themed_docs v (body p) \<Longrightarrow> themed_docs (\<not> v) (body (snd (toggle_dark_docs p)))"
  by (cases "global_enabled p")
     (simp_all add: body_toggle_dark_docs themed_docs_set_button_text_docs themed_docs_darken_docs)

lemma in_sync_toggles: "in_sync (body p) \<Longrightarrow> in_sync (body (toggles n p))"
proof (induction n arbitrary: p)
  case 0
  then show ?case by simp
next
  case (Suc n)
  have "themed (\<not> has_class ''dark'' (body p)) (body (snd (toggle_dark p)))"
    using Suc.prems by (simp only: in_sync_themed themed_toggle_dark)
  then have "in_sync (body (snd (toggle_dark p)))" by (rule themed_in_sync)
  then show ?case using Suc.IH by simp
qed

lemma in_sync_docs_toggles_docs: "in_sync_docs (body p) \<Longrightarrow> in_sync_docs (body (toggles_docs n p))"
proof (induction n arbitrary: p)
  case 0
  then show ?case by simp
next
  case (Suc n)
  have "themed_docs (\<not> has_class ''darken'' (body p)) (body (snd (toggle_dark_docs p)))"
    using Suc.prems by (simp only: in_sync_docs_themed themed_docs_toggle_dark_docs)
  then have "in_sync_docs (body (snd (toggle_dark_docs p)))" by (rule themed_docs_in_sync)
  then show ?case using Suc.IH by simp
qed

lemma shallow_not_marker: "shallow (\<lambda>c. \<not> has_class m c)"
  using shallow_has_class[of m] by (simp add: shallow_def)

lemma localStorage_toggle_dark_docs:
  "localStorage (snd (toggle_dark_docs p)) = localStorage (snd (toggle_dark p))"
  by (simp add: toggle_dark_docs_def toggle_dark_def Let_def get_dark_state_def split: option.splits)

lemma has_class_body_dark_init:
  "has_class ''dark'' (body (snd (dark_init p)))
     = (has_class ''dark'' (body p) \<noteq> (get_dark_state p = ''y''))"
  by (simp add: body_dark_init Let_def has_class_set_button_text has_class_prepend_header
      has_class_darken)

lemma has_class_body_dark_init_docs:
  "has_class ''darken'' (body (snd (dark_init_docs p)))
     = (has_class ''darken'' (body p) \<noteq> (get_dark_state p = ''y''))"
  by (simp add: body_dark_init_docs has_class_set_button_text_docs has_class_prepend
      has_class_darken_docs)

lemma get_dark_state_reload:
  "get_dark_state \<lparr>body = d, localStorage = localStorage (snd (toggle_dark p)), global_enabled = g\<rparr>
     = (if get_dark_state p = ''y'' then ''n'' else ''y'')"
  by (simp add: toggle_dark_def Let_def get_dark_state_def getItem_def setItem_def or_n_def)

lemma list_ex_find_Some: "list_ex P xs \<Longrightarrow> \<exists>y. find P xs = Some y"
  using list_ex_find_None[of P xs] by (cases "find P xs") auto

lemma shallow_prepend: "shallow P \<Longrightarrow> P (prepend s e) = P e"
  using shallowD[of P "prepend s e"] shallowD[of P e] by (simp add: bare_prepend)

text \<open>Prepending adds the elements of the new child when the target exists.\<close>

lemma count_prepend_first:
  "shallow P \<Longrightarrow>
     length (filter P (elements (update_first Q (prepend s) e)))
       = length (filter P (elements e))
         + (if list_ex Q (elements e) then length (filter P (elements s)) else 0)"
  "shallow P \<Longrightarrow>
     length (filter P (concat (map elements (update_first_list Q (prepend s) xs))))
       = length (filter P (concat (map elements xs)))
         + (if list_ex Q (concat (map elements xs)) then length (filter P (elements s)) else 0)"
proof (induction Q "prepend s" e and Q "prepend s" xs rule: update_first_update_first_list.induct)
  case (1 Q t i n cl tx h ch)
  show ?case
  proof (cases "Q (Element t i n cl tx h ch)")
    case True
    have "P (Element t i n cl tx h (s # ch)) = P (Element t i n cl tx h ch)"
      by (rule shallow_children[OF "1.prems"])
    then show ?thesis using True by simp
  next
    case False
    have "P (Element t i n cl tx h (update_first_list Q (prepend s) ch)) = P (Element t i n cl tx h ch)"
      by (rule shallow_children[OF "1.prems"])
    then show ?thesis using False 1(1)[OF False "1.prems"] by simp
  qed
next
  case (2 Q)
  then show ?case by simp
next
  case (3 Q x xs)
  show ?case
  proof (cases "list_ex Q (elements x)")
    case True
    then show ?thesis using 3(1)[OF True "3.prems"] by simp
  next
    case False
    then show ?thesis using 3(2)[OF False "3.prems"] by simp
  qed
qed

lemma list_ex_prepend_first:
  "P s \<Longrightarrow> list_ex Q (elements e) \<Longrightarrow> list_ex P (elements (update_first Q (prepend s) e))"
  "P s \<Longrightarrow> list_ex Q (concat (map elements xs)) \<Longrightarrow>
     list_ex P (concat (map elements (update_first_list Q (prepend s) xs)))"
proof (induction Q "prepend s" e and Q "prepend s" xs rule: update_first_update_first_list.induct)
  case (1 Q t i n cl tx h ch)
  show ?case
  proof (cases "Q (Element t i n cl tx h ch)")
    case True
    have "list_ex P (elements s)" using "1.prems"(1) by (subst elements_root) simp
    then show ?thesis using True by simp
  next
    case False
    then show ?thesis using 1(1)[OF False "1.prems"(1)] "1.prems"(2) by simp
  qed
next
  case (2 Q)
  then show ?case by simp
next
  case (3 Q x xs)
  show ?case
  proof (cases "list_ex Q (elements x)")
    case True
    then show ?thesis using 3(1)[OF True "3.prems"(1)] by simp
  next
    case False
    then show ?thesis using 3(2)[OF False "3.prems"(1)] "3.prems"(2) by simp
  qed
qed

lemma update_first_root: "P s \<Longrightarrow> update_first P g s = g s"
  by (cases s) simp

lemma leaf_prepend_first:
  "shallow P \<Longrightarrow> P s \<Longrightarrow> children s = [] \<Longrightarrow>
   (\<forall>x. find P (elements e) = Some x \<longrightarrow> children x = [] \<and> \<not> Q x) \<Longrightarrow>
   (\<forall>x. find P (elements (update_first Q (prepend s) e)) = Some x \<longrightarrow> children x = [])"
  "shallow P \<Longrightarrow> P s \<Longrightarrow> children s = [] \<Longrightarrow>
   (\<forall>x. find P (concat (map elements xs)) = Some x \<longrightarrow> children x = [] \<and> \<not> Q x) \<Longrightarrow>
   (\<forall>x. find P (concat (map elements (update_first_list Q (prepend s) xs))) = Some x
        \<longrightarrow> children x = [])"
proof (induction Q "prepend s" e and Q "prepend s" xs rule: update_first_update_first_list.induct)
  case (1 Q t i n cl tx h ch)
  let ?e = "Element t i n cl tx h ch"
  show ?case
  proof (cases "Q ?e")
    case True
    then have np: "\<not> P ?e" using "1.prems"(4) by auto
    then have "\<not> P (Element t i n cl tx h (s # ch))"
      using shallow_children[OF "1.prems"(1)] by blast
    moreover have "find P (elements s @ concat (map elements ch)) = Some s"
      using "1.prems"(2) by (subst elements_root) simp
    ultimately show ?thesis using True "1.prems"(3) by simp
  next
    case False
    show ?thesis
    proof (cases "P ?e")
      case True
      then have "ch = []" using "1.prems"(4) by simp
      then show ?thesis using False by simp
    next
      case np: False
      then have "\<not> P (Element t i n cl tx h (update_first_list Q (prepend s) ch))"
        using shallow_children[OF "1.prems"(1)] by blast
      moreover have "\<forall>x. find P (concat (map elements ch)) = Some x \<longrightarrow> children x = [] \<and> \<not> Q x"
        using "1.prems"(4) np by simp
      then have "\<forall>x. find P (concat (map elements (update_first_list Q (prepend s) ch))) = Some x
          \<longrightarrow> children x = []"
        by (rule 1(1)[OF False "1.prems"(1,2,3)])
      ultimately show ?thesis
        using False by simp
    qed
  qed
next
  case (2 Q)
  then show ?case by simp
next
  case (3 Q x xs)
  show ?case
  proof (cases "list_ex Q (elements x)")
    case True
    have "list_ex P (elements (update_first Q (prepend s) x))"
      using list_ex_prepend_first(1)[of P s Q x] "3.prems"(2) True by blast
    then obtain z where z: "find P (elements (update_first Q (prepend s) x)) = Some z"
      using list_ex_find_Some by blast
    have "\<forall>y. find P (elements x) = Some y \<longrightarrow> children y = [] \<and> \<not> Q y"
    proof (intro allI impI)
      fix y assume "find P (elements x) = Some y"
      then have "find P (concat (map elements (x # xs))) = Some y" by (simp add: find_append)
      then show "children y = [] \<and> \<not> Q y" using "3.prems"(4) by blast
    qed
    then have "\<forall>y. find P (elements (update_first Q (prepend s) x)) = Some y \<longrightarrow> children y = []"
      by (rule 3(1)[OF True "3.prems"(1,2,3)])
    then have "children z = []"
      using z by blast
    then show ?thesis using True z by (simp add: find_append)
  next
    case False
    show ?thesis
    proof (cases "find P (elements x)")
      case None
      then have "\<forall>y. find P (concat (map elements xs)) = Some y \<longrightarrow> children y = [] \<and> \<not> Q y"
        using "3.prems"(4) by (simp add: find_append)
      then have "\<forall>y. find P (concat (map elements (update_first_list Q (prepend s) xs))) = Some y
          \<longrightarrow> children y = []"
        by (rule 3(2)[OF False "3.prems"(1,2,3)])
      then show ?thesis
        using False None by (simp add: find_append)
    next
      case (Some y)
      then have "children y = []" using "3.prems"(4) by (simp add: find_append)
      then show ?thesis using False Some by (simp add: find_append)
    qed
  qed
qed

lemma set_text_after_prepend:
  "shallow P \<Longrightarrow> P s \<Longrightarrow> \<not> list_ex P (elements e) \<Longrightarrow>
     update_first P g (update_first Q (prepend s) e) = update_first Q (prepend (g s)) e"
  "shallow P \<Longrightarrow> P s \<Longrightarrow> \<not> list_ex P (concat (map elements xs)) \<Longrightarrow>
     update_first_list P g (update_first_list Q (prepend s) xs)
       = update_first_list Q (prepend (g s)) xs"
proof (induction Q "prepend s" e and Q "prepend s" xs rule: update_first_update_first_list.induct)
  case (1 Q t i n cl tx h ch)
  let ?e = "Element t i n cl tx h ch"
  have np: "\<not> P ?e" using "1.prems"(3) by simp
  show ?case
  proof (cases "Q ?e")
    case True
    have "\<not> P (Element t i n cl tx h (s # ch))"
      using np shallow_children[OF "1.prems"(1)] by blast
    moreover have "list_ex P (elements s)" using "1.prems"(2) by (subst elements_root) simp
    ultimately show ?thesis using True "1.prems"(2) by (simp add: update_first_root)
  next
    case False
    have "\<not> P (Element t i n cl tx h (update_first_list Q (prepend s) ch))"
      using np shallow_children[OF "1.prems"(1)] by blast
    moreover have "\<not> list_ex P (concat (map elements ch))" using "1.prems"(3) by simp
    ultimately show ?thesis using False 1(1)[OF False "1.prems"(1,2)] by simp
  qed
next
  case (2 Q)
  then show ?case by simp
next
  case (3 Q x xs)
  have nx: "\<not> list_ex P (elements x)" and nxs: "\<not> list_ex P (concat (map elements xs))"
    using "3.prems"(3) by simp_all
  show ?case
  proof (cases "list_ex Q (elements x)")
    case True
    have "list_ex P (elements (update_first Q (prepend s) x))"
      using list_ex_prepend_first(1)[of P s Q x] "3.prems"(2) True by blast
    then show ?thesis using True 3(1)[OF True "3.prems"(1,2) nx] by simp
  next
    case False
    then show ?thesis using nx 3(2)[OF False "3.prems"(1,2) nxs] by simp
  qed
qed

subsection \<open>Default state\<close>

lemma get_dark_state_not_y:
  "localStorage p ''darkmode_enabled'' \<noteq> Some ''y'' \<Longrightarrow> get_dark_state p \<noteq> ''y''"
  by (auto simp: get_dark_state_def getItem_def or_n_def split: option.splits)

lemma surfaces_docs_prepend_new_div: "surfaces_docs (prepend new_div d) = surfaces_docs d"
  by (simp add: surfaces_docs_def getElementsByClassName_def getElementsByTagName_def
      descendants_prepend elements_root[of new_div])
     (simp add: new_div_def has_class_def has_tag_def)

lemma unmarked_docs_prepend: "unmarked_docs d \<Longrightarrow> unmarked_docs (prepend new_div d)"
  by (simp add: unmarked_docs_def surfaces_docs_prepend_new_div has_class_prepend)

lemma unmarked_docs_set_button_text_docs:
  assumes "unmarked_docs d"
  shows "unmarked_docs (set_button_text_docs e d)"
proof -
  let ?R = "\<lambda>c. \<not> has_class ''darken'' c"
  let ?d' = "set_button_text_docs e d"
  have r: "?R d" using assms by (simp add: unmarked_docs_def)
  then have r': "?R ?d'" by (simp add: has_class_set_button_text_docs)
  have a: "list_all ?R (filter (has_class ''card'') (descendants d))"
    "list_all ?R (filter (has_tag ''code'') (descendants d))"
    "list_all ?R (filter (has_tag ''pre'') (descendants d))"
    using assms
    by (simp_all add: unmarked_docs_def surfaces_docs_def getElementsByClassName_def
        getElementsByTagName_def)
  have "list_all ?R (filter (has_class ''card'') (descendants ?d'))"
    by (rule all_surfaces_subset[OF subset_set_button_text_docs shallow_has_class
          shallow_not_marker r r' a(1)])
  moreover have "list_all ?R (filter (has_tag ''code'') (descendants ?d'))"
    by (rule all_surfaces_subset[OF subset_set_button_text_docs shallow_has_tag
          shallow_not_marker r r' a(2)])
  moreover have "list_all ?R (filter (has_tag ''pre'') (descendants ?d'))"
    by (rule all_surfaces_subset[OF subset_set_button_text_docs shallow_has_tag
          shallow_not_marker r r' a(3)])
  ultimately show ?thesis
    using r' by (simp add: unmarked_docs_def surfaces_docs_def getElementsByClassName_def
        getElementsByTagName_def)
qed

subsection \<open>Presence of an id\<close>

lemma getElementById_None: "(getElementById i d = None) = (\<not> list_ex (has_id i) (elements d))"
  by (simp add: getElementById_def list_ex_find_None)

lemma elements_darken: "elements (darken b) = darken b # map (toggle_in (has_class ''card'') ''dark'') (descendants b)"
  by (simp add: darken_def elements_toggle_each descendants_classList_toggle)

lemma elements_darken_docs: "elements (darken_docs b) = darken_docs b # map darken_in_docs (descendants b)"
  using descendants_darken_docs[of b]
  by (subst elements_root) (simp add: descendants_def)

lemma elements_descendants: "elements d = d # descendants d"
  by (subst elements_root) (simp add: descendants_def)

lemma has_id_darken: "has_id i (darken b) = has_id i b"
  by (simp add: darken_def has_id_toggle_each has_id_classList_toggle)

lemma has_id_darken_docs: "has_id i (darken_docs b) = has_id i b"
  by (simp add: darken_docs_def has_id_toggle_each has_id_classList_toggle)

lemma has_id_darken_in_docs: "has_id i (darken_in_docs x) = has_id i x"
  by (simp add: darken_in_docs_def has_id_toggle_in)

lemma count_id_darken: "count_id i (darken b) = count_id i b"
  by (simp add: count_id_def elements_darken has_id_darken filter_map comp_def has_id_toggle_in
      elements_descendants[of b])

lemma count_id_darken_docs: "count_id i (darken_docs b) = count_id i b"
  by (simp add: count_id_def elements_darken_docs has_id_darken_docs filter_map comp_def
      has_id_darken_in_docs elements_descendants[of b])

lemma list_ex_id_darken: "list_ex (has_id i) (elements (darken b)) = list_ex (has_id i) (elements b)"
  by (simp add: elements_darken has_id_darken list_ex_iff has_id_toggle_in elements_descendants[of b])

lemma getElementById_darken_None: "(getElementById i (darken b) = None) = (getElementById i b = None)"
  by (simp add: getElementById_None list_ex_id_darken)

lemma has_id_set_textContent: "has_id i (set_textContent c x) = has_id i x"
  by (cases x) (simp add: has_id_def)

lemma getElementById_update:
  "getElementById ''dark-button'' (update_first (has_id ''dark-button'') (set_textContent c) d)
     = map_option (set_textContent c) (getElementById ''dark-button'' d)"
  unfolding getElementById_def
  by (rule find_update_first(1)[OF shallow_has_id]) (simp add: has_id_set_textContent)

lemma getElementById_set_button_text:
  "getElementById ''dark-button'' (set_button_text e d)
     = map_option (set_textContent (if e = ''y'' then UNDARK_TEXT else DARK_TEXT))
         (getElementById ''dark-button'' d)"
  by (cases "getElementById ''dark-button'' d")
     (simp_all add: set_button_text_def Let_def getElementById_update)

lemma getElementById_set_button_text_docs:
  "getElementById ''dark-button'' (set_button_text_docs e d)
     = map_option (set_textContent (if e = ''y'' then SUN_SYMBOL else MOON_SYMBOL))
         (getElementById ''dark-button'' d)"
  by (cases "getElementById ''dark-button'' d")
     (simp_all add: set_button_text_docs_def Let_def getElementById_update)

subsection \<open>The header container\<close>

lemma named_header_toggle_in: "named_header (toggle_in P m x) = named_header x"
  by (cases x) (simp add: named_header_def has_tag_def Let_def)

lemma named_header_div: "named_header x \<Longrightarrow> has_tag ''div'' x"
  by (simp add: named_header_def)

lemma find_header_divs: "find named_header (filter (has_tag ''div'') xs) = find named_header xs"
  by (induction xs) (auto simp: named_header_div)

lemma list_ex_header_divs: "list_ex named_header (filter (has_tag ''div'') xs) = list_ex named_header xs"
  by (induction xs) (auto simp: named_header_div)

lemma header_in_descendants: "header_in d = list_ex named_header (descendants d)"
  by (simp add: header_in_def getElementsByTagName_def list_ex_header_divs)

lemma header_in_darken: "header_in (darken d) = header_in d"
  by (simp add: header_in_descendants descendants_darken list_ex_iff named_header_toggle_in)

lemma descendants_prepend_header:
  "descendants (prepend_header s d)
     = concat (map elements (update_first_list named_header (prepend s) (children d)))"
  by (cases d) (simp add: descendants_def)

lemma find_header_prepend_header:
  "find named_header (getElementsByTagName ''div'' (prepend_header s d))
     = map_option (prepend s) (find named_header (getElementsByTagName ''div'' d))"
proof -
  have "\<forall>x. named_header x \<longrightarrow> named_header (prepend s x)"
    by (simp add: shallow_prepend[OF shallow_named_header])
  then show ?thesis
    using find_update_first(2)[OF shallow_named_header, of "prepend s" "children d"]
    by (simp add: getElementsByTagName_def find_header_divs descendants_prepend_header)
       (simp add: descendants_def)
qed

lemma list_ex_id_prepend_header:
  assumes "header_in d" and "has_id i s"
  shows "list_ex (has_id i) (elements (prepend_header s d))"
proof -
  have "list_ex named_header (concat (map elements (children d)))"
    using assms(1) by (simp add: header_in_descendants descendants_def)
  then have "list_ex (has_id i) (concat (map elements (update_first_list named_header (prepend s) (children d))))"
    using list_ex_prepend_first(2)[of "has_id i" s named_header "children d"] assms(2) by blast
  then show ?thesis
    by (subst elements_descendants) (simp add: descendants_prepend_header)
qed

lemma prepend_header_no_header: "\<not> header_in d \<Longrightarrow> prepend_header s d = d"
  by (cases d) (simp add: header_in_descendants descendants_def update_first_none(2))

subsection \<open>Where the control is inserted\<close>

lemma getElementById_dark_init_docs:
  "getElementById ''dark-button'' (body (snd (dark_init_docs p))) \<noteq> None"
proof -
  have "list_ex (has_id ''dark-button'') (elements (prepend new_div (body p)))"
    by (simp add: elements_prepend elements_root[of new_div]) (simp add: new_div_def has_id_def)
  then have "list_ex (has_id ''dark-button'')
      (elements (if get_dark_state p = ''y'' then darken_docs (prepend new_div (body p))
          else prepend new_div (body p)))"
    by (simp add: elements_darken_docs has_id_darken_docs list_ex_iff has_id_darken_in_docs
        elements_descendants[of "prepend new_div (body p)"])
  then show ?thesis
    by (simp add: body_dark_init_docs getElementById_set_button_text_docs getElementById_None)
qed

lemma children_dark_init_docs:
  assumes "elem_id (body p) \<noteq> ''dark-button''"
  shows "children (body (snd (dark_init_docs p)))
     = Element ''div'' ''dark-button'' [] []
         (if get_dark_state p = ''y'' then SUN_SYMBOL else MOON_SYMBOL) (Some Toggle_dark) []
       # children (if get_dark_state p = ''y'' then darken_docs (body p) else body p)"
proof (cases "body p")
  case (Element t i n cl tx h ch)
  then have i: "i \<noteq> ''dark-button''" using assms by simp
  show ?thesis
    using i
    by (simp add: body_dark_init_docs Element set_button_text_docs_def getElementById_def
        new_div_def darken_docs_def has_id_def has_class_def has_tag_def Let_def)
qed

lemma getElementById_dark_init_header:
  assumes "header_in (body p)"
  shows "getElementById ''dark-button'' (body (snd (dark_init p))) \<noteq> None"
proof -
  let ?d = "if get_dark_state p = ''y'' then darken (body p) else body p"
  have h: "header_in ?d" using assms by (simp add: header_in_darken)
  have "has_id ''dark-button'' new_span" by (simp add: new_span_def has_id_def)
  then have "list_ex (has_id ''dark-button'') (elements (prepend_header new_span ?d))"
    using list_ex_id_prepend_header[OF h] by blast
  then show ?thesis
    using h by (simp add: body_dark_init Let_def getElementById_set_button_text getElementById_None)
qed

lemma getElementById_dark_init_no_header:
  assumes "\<not> header_in (body p)"
  shows "(getElementById ''dark-button'' (body (snd (dark_init p))) = None)
         = (getElementById ''dark-button'' (body p) = None)"
proof -
  let ?d = "if get_dark_state p = ''y'' then darken (body p) else body p"
  have h: "\<not> header_in ?d" using assms by (simp add: header_in_darken)
  have "(getElementById ''dark-button'' ?d = None) = (getElementById ''dark-button'' (body p) = None)"
    by (simp add: getElementById_darken_None)
  then show ?thesis
    using h by (simp add: body_dark_init Let_def getElementById_set_button_text)
qed

lemma set_button_text_prepend_header:
  assumes "getElementById ''dark-button'' d = None"
  shows "set_button_text e (if header_in d then prepend_header new_span d else d)
         = prepend_header (set_textContent (if e = ''y'' then UNDARK_TEXT else DARK_TEXT) new_span) d"
proof (cases "header_in d")
  case False
  then show ?thesis
    using assms by (simp add: prepend_header_no_header set_button_text_def)
next
  case True
  let ?c = "if e = ''y'' then UNDARK_TEXT else DARK_TEXT"
  have s: "has_id ''dark-button'' new_span" by (simp add: new_span_def has_id_def)
  have n: "\<not> list_ex (has_id ''dark-button'') (elements d)"
    using assms by (simp add: getElementById_None)
  obtain t i n' cl tx h ch where d: "d = Element t i n' cl tx h ch" by (cases d) blast
  have nr: "\<not> has_id ''dark-button'' d" and nc: "\<not> list_ex (has_id ''dark-button'') (concat (map elements ch))"
    using n d by simp_all
  have nr': "\<not> has_id ''dark-button'' (Element t i n' cl tx h (update_first_list named_header (prepend new_span) ch))"
    using nr d shallow_children[OF shallow_has_id] by blast
  have "getElementById ''dark-button'' (prepend_header new_span d) \<noteq> None"
    using list_ex_id_prepend_header[OF True s] by (simp add: getElementById_None)
  then have "set_button_text e (prepend_header new_span d)
      = update_first (has_id ''dark-button'') (set_textContent ?c) (prepend_header new_span d)"
    by (auto simp: set_button_text_def Let_def)
  also have "\<dots> = Element t i n' cl tx h
      (update_first_list (has_id ''dark-button'') (set_textContent ?c)
         (update_first_list named_header (prepend new_span) ch))"
    using nr' by (simp add: d)
  also have "\<dots> = Element t i n' cl tx h
      (update_first_list named_header (prepend (set_textContent ?c new_span)) ch)"
    using set_text_after_prepend(2)[OF shallow_has_id s nc] by simp
  also have "\<dots> = prepend_header (set_textContent ?c new_span) d"
    by (simp add: d)
  finally show ?thesis using True by simp
qed

lemma find_header_dark_init:
  assumes "getElementById ''dark-button'' (body p) = None"
  shows "find named_header (getElementsByTagName ''div'' (body (snd (dark_init p))))
     = map_option
         (prepend (Element ''span'' ''dark-button'' [] []
            (if get_dark_state p = ''y'' then UNDARK_TEXT else DARK_TEXT) (Some Toggle_dark) []))
         (find named_header (getElementsByTagName ''div''
            (if get_dark_state p = ''y'' then darken (body p) else body p)))"
proof -
  let ?d = "if get_dark_state p = ''y'' then darken (body p) else body p"
  let ?c = "if get_dark_state p = ''y'' then UNDARK_TEXT else DARK_TEXT"
  have "getElementById ''dark-button'' ?d = None"
    using assms by (simp add: getElementById_darken_None)
  then have "body (snd (dark_init p)) = prepend_header (set_textContent ?c new_span) ?d"
    by (simp only: body_dark_init Let_def set_button_text_prepend_header)
  moreover have "set_textContent ?c new_span
      = Element ''span'' ''dark-button'' [] [] ?c (Some Toggle_dark) []"
    by (simp add: new_span_def)
  ultimately show ?thesis
    by (simp only: find_header_prepend_header)
qed

subsection \<open>How many elements carry the id of the control\<close>

lemma count_id_skeleton:
  "map bare (elements d') = map bare (elements d) \<Longrightarrow> count_id i d' = count_id i d"
proof -
  assume a: "map bare (elements d') = map bare (elements d)"
  have "\<And>xs. length (filter (has_id i) (map bare xs)) = length (filter (has_id i) xs)"
    by (simp add: filter_map comp_def shallowD[OF shallow_has_id])
  then have "length (filter (has_id i) (elements d')) = length (filter (has_id i) (elements d))"
    using a by metis
  then show ?thesis by (simp add: count_id_def)
qed

lemma count_id_set_button_text:
  "control_leaf d \<Longrightarrow> count_id i (set_button_text e d) = count_id i d"
  by (rule count_id_skeleton[OF skeleton_set_button_text])

lemma count_id_set_button_text_docs:
  "control_leaf d \<Longrightarrow> count_id i (set_button_text_docs e d) = count_id i d"
  by (rule count_id_skeleton[OF skeleton_set_button_text_docs])

lemma count_id_prepend_new_div:
  "count_id ''dark-button'' (prepend new_div d) = count_id ''dark-button'' d + 1"
  by (simp add: count_id_def elements_prepend shallow_prepend[OF shallow_has_id]
      elements_descendants[of d] elements_root[of new_div])
     (simp add: new_div_def has_id_def)

lemma control_leaf_prepend_new_div:
  "elem_id d \<noteq> ''dark-button'' \<Longrightarrow> control_leaf (prepend new_div d)"
  by (simp add: control_leaf_def getElementById_def elements_prepend
      shallow_prepend[OF shallow_has_id] elements_root[of new_div])
     (simp add: new_div_def has_id_def)

lemma count_id_dark_init_docs:
  assumes "elem_id (body p) \<noteq> ''dark-button''"
  shows "count_id ''dark-button'' (body (snd (dark_init_docs p)))
         = count_id ''dark-button'' (body p) + 1"
proof -
  let ?d = "if get_dark_state p = ''y'' then darken_docs (prepend new_div (body p))
            else prepend new_div (body p)"
  have "control_leaf ?d"
    using control_leaf_prepend_new_div[OF assms] by (simp add: control_leaf_darken_docs)
  then have "count_id ''dark-button'' (body (snd (dark_init_docs p))) = count_id ''dark-button'' ?d"
    by (simp only: body_dark_init_docs count_id_set_button_text_docs)
  also have "\<dots> = count_id ''dark-button'' (body p) + 1"
    by (simp add: count_id_darken_docs count_id_prepend_new_div)
  finally show ?thesis .
qed

lemma control_plain_root:
  assumes "control_plain d" and "header_in d"
  shows "\<not> has_id ''dark-button'' d"
proof
  assume "has_id ''dark-button'' d"
  then have "getElementById ''dark-button'' d = Some d"
    by (simp add: getElementById_def elements_descendants)
  then have "children d = []" using assms(1) by (simp add: control_plain_def)
  then have "\<not> header_in d" by (simp add: header_in_descendants descendants_def)
  then show False using assms(2) by simp
qed

lemma control_leaf_prepend_header:
  assumes cp: "control_plain d" and h: "header_in d"
  shows "control_leaf (prepend_header new_span d)"
proof -
  obtain t i n cl tx hd ch where d: "d = Element t i n cl tx hd ch" by (cases d) blast
  have nr: "\<not> has_id ''dark-button'' d" by (rule control_plain_root[OF cp h])
  then have nr': "\<not> has_id ''dark-button''
      (Element t i n cl tx hd (update_first_list named_header (prepend new_span) ch))"
    using d shallow_children[OF shallow_has_id] by blast
  have s: "has_id ''dark-button'' new_span" "children new_span = []"
    by (simp_all add: new_span_def has_id_def)
  have "\<forall>x. find (has_id ''dark-button'') (concat (map elements ch)) = Some x
      \<longrightarrow> children x = [] \<and> \<not> named_header x"
    using cp nr d by (simp add: control_plain_def getElementById_def split: option.splits)
  then have "\<forall>x. find (has_id ''dark-button'')
        (concat (map elements (update_first_list named_header (prepend new_span) ch))) = Some x
      \<longrightarrow> children x = []"
    by (rule leaf_prepend_first(2)[OF shallow_has_id s])
  then show ?thesis
    using nr' by (simp add: d control_leaf_def getElementById_def split: option.splits)
qed

lemma count_id_prepend_header:
  assumes "header_in d"
  shows "count_id ''dark-button'' (prepend_header new_span d) = count_id ''dark-button'' d + 1"
proof -
  obtain t i n cl tx hd ch where d: "d = Element t i n cl tx hd ch" by (cases d) blast
  have ex: "list_ex named_header (concat (map elements ch))"
    using assms d by (simp add: header_in_descendants descendants_def)
  have r: "has_id ''dark-button''
      (Element t i n cl tx hd (update_first_list named_header (prepend new_span) ch))
      = has_id ''dark-button'' (Element t i n cl tx hd ch)"
    by (rule shallow_children[OF shallow_has_id])
  have "length (filter (has_id ''dark-button'') (elements new_span)) = 1"
    by (simp add: new_span_def has_id_def)
  then have "length (filter (has_id ''dark-button'')
        (concat (map elements (update_first_list named_header (prepend new_span) ch))))
      = length (filter (has_id ''dark-button'') (concat (map elements ch))) + 1"
    using count_prepend_first(2)[OF shallow_has_id, of "''dark-button''" named_header new_span ch] ex
    by simp
  then show ?thesis using r by (simp add: d count_id_def)
qed

lemma named_header_darken: "named_header (darken d) = named_header d"
  by (cases d) (simp add: darken_def named_header_def has_tag_def)

lemma children_darken_Nil: "(children (darken d) = []) = (children d = [])"
  by (simp add: darken_def children_toggle_each_Nil children_classList_toggle)

lemma control_plain_darken: "control_plain (darken d) = control_plain d"
proof (cases "has_id ''dark-button'' d")
  case True
  then have "getElementById ''dark-button'' d = Some d"
    by (simp add: getElementById_def elements_descendants[of d])
  moreover have "getElementById ''dark-button'' (darken d) = Some (darken d)"
    using True by (simp add: getElementById_def elements_darken has_id_darken)
  ultimately show ?thesis
    by (simp add: control_plain_def named_header_darken children_darken_Nil)
next
  case False
  then show ?thesis
    by (cases "find (has_id ''dark-button'') (descendants d)")
       (simp_all add: control_plain_def getElementById_def elements_darken has_id_darken
        elements_descendants[of d] find_has_id_toggle_in children_toggle_in_Nil
        named_header_toggle_in)
qed

lemma count_id_dark_init_header:
  assumes h: "header_in (body p)" and cp: "control_plain (body p)"
  shows "count_id ''dark-button'' (body (snd (dark_init p)))
         = count_id ''dark-button'' (body p) + 1"
proof -
  let ?d = "if get_dark_state p = ''y'' then darken (body p) else body p"
  have h': "header_in ?d" using h by (simp add: header_in_darken)
  have cp': "control_plain ?d" using cp by (simp add: control_plain_darken)
  have "control_leaf (prepend_header new_span ?d)"
    by (rule control_leaf_prepend_header[OF cp' h'])
  then have "count_id ''dark-button'' (set_button_text (get_dark_state p) (prepend_header new_span ?d))
      = count_id ''dark-button'' (prepend_header new_span ?d)"
    by (rule count_id_set_button_text)
  also have "\<dots> = count_id ''dark-button'' ?d + 1"
    by (rule count_id_prepend_header[OF h'])
  also have "\<dots> = count_id ''dark-button'' (body p) + 1"
    by (simp add: count_id_darken)
  finally show ?thesis using h' by (simp add: body_dark_init Let_def)
qed

lemma count_id_dark_init_no_header:
  assumes h: "\<not> header_in (body p)" and cl: "control_leaf (body p)"
  shows "count_id ''dark-button'' (body (snd (dark_init p))) = count_id ''dark-button'' (body p)"
proof -
  let ?d = "if get_dark_state p = ''y'' then darken (body p) else body p"
  have h': "\<not> header_in ?d" using h by (simp add: header_in_darken)
  have "control_leaf ?d" using cl by (simp add: control_leaf_darken)
  then have "count_id ''dark-button'' (set_button_text (get_dark_state p) ?d)
      = count_id ''dark-button'' ?d"
    by (rule count_id_set_button_text)
  also have "\<dots> = count_id ''dark-button'' (body p)"
    by (simp add: count_id_darken)
  finally show ?thesis using h' by (simp add: body_dark_init Let_def)
qed

subsection \<open>Surfaces are kept when the control is inserted\<close>

lemma filter_prepend_first:
  "shallow C \<Longrightarrow> \<not> list_ex C (elements s) \<Longrightarrow>
     map bare (filter C (elements (update_first Q (prepend s) e))) = map bare (filter C (elements e))"
  "shallow C \<Longrightarrow> \<not> list_ex C (elements s) \<Longrightarrow>
     map bare (filter C (concat (map elements (update_first_list Q (prepend s) xs))))
       = map bare (filter C (concat (map elements xs)))"
proof (induction Q "prepend s" e and Q "prepend s" xs rule: update_first_update_first_list.induct)
  case (1 Q t i n cl tx h ch)
  show ?case
  proof (cases "Q (Element t i n cl tx h ch)")
    case True
    have "C (Element t i n cl tx h (s # ch)) = C (Element t i n cl tx h ch)"
      by (rule shallow_children[OF "1.prems"(1)])
    moreover have "filter C (elements s) = []"
      using "1.prems"(2) by (simp add: list_ex_iff filter_empty_conv)
    ultimately show ?thesis using True by simp
  next
    case False
    have "C (Element t i n cl tx h (update_first_list Q (prepend s) ch))
          = C (Element t i n cl tx h ch)"
      by (rule shallow_children[OF "1.prems"(1)])
    then show ?thesis using False 1(1)[OF False "1.prems"] by simp
  qed
next
  case (2 Q)
  then show ?case by simp
next
  case (3 Q x xs)
  show ?case
  proof (cases "list_ex Q (elements x)")
    case True
    then show ?thesis using 3(1)[OF True "3.prems"] by simp
  next
    case False
    then show ?thesis using 3(2)[OF False "3.prems"] by simp
  qed
qed

lemma surface_markers_prepend_header:
  "surface_markers (prepend_header new_span d) = surface_markers d"
proof -
  have n: "\<not> list_ex (has_class ''card'') (elements new_span)"
    by (simp add: new_span_def has_class_def)
  have "map bare (filter (has_class ''card'') (descendants (prepend_header new_span d)))
        = map bare (filter (has_class ''card'') (descendants d))"
    using filter_prepend_first(2)[OF shallow_has_class n, of named_header "children d"]
    by (simp add: descendants_prepend_header) (simp add: descendants_def)
  then have "map (has_class ''dark'') (map bare (filter (has_class ''card'') (descendants (prepend_header new_span d))))
        = map (has_class ''dark'') (map bare (filter (has_class ''card'') (descendants d)))"
    by simp
  then show ?thesis
    by (simp add: surface_markers_def getElementsByClassName_def comp_def
        shallowD[OF shallow_has_class])
qed

text \<open>
  In the first variant \<open>dark_init\<close> inverts the marker of the body and of every card
  when the stored value is \<open>y\<close>, and keeps them otherwise.
\<close>

lemma surface_markers_dark_init:
  assumes "control_plain (body p)"
  shows "surface_markers (body (snd (dark_init p)))
         = map (\<lambda>m. m \<noteq> (get_dark_state p = ''y'')) (surface_markers (body p))"
proof -
  let ?d = "if get_dark_state p = ''y'' then darken (body p) else body p"
  let ?d2 = "if header_in ?d then prepend_header new_span ?d else ?d"
  have cp: "control_plain ?d" using assms by (simp add: control_plain_darken)
  have "control_leaf ?d2"
  proof (cases "header_in ?d")
    case True
    then show ?thesis using control_leaf_prepend_header[OF cp True] by simp
  next
    case False
    then show ?thesis using cp by (auto simp: control_leaf_def control_plain_def split: option.splits)
  qed
  then have "surface_markers (set_button_text (get_dark_state p) ?d2) = surface_markers ?d2"
    by (rule surface_markers_set_button_text)
  also have "\<dots> = surface_markers ?d"
    by (simp add: surface_markers_prepend_header)
  also have "\<dots> = map (\<lambda>m. m \<noteq> (get_dark_state p = ''y'')) (surface_markers (body p))"
    by (simp add: surface_markers_darken)
  finally show ?thesis by (simp only: body_dark_init Let_def)
qed

subsection \<open>The label after a toggle, first variant\<close>

lemma label_toggle_dark:
  "map_option textContent (getElementById ''dark-button'' (body (snd (toggle_dark p))))
     = (if getElementById ''dark-button'' (body p) = None then None
        else Some (if get_dark_state (snd (toggle_dark p)) = ''y'' then UNDARK_TEXT else DARK_TEXT))"
proof (cases "getElementById ''dark-button'' (darken (body p))")
  case None
  then show ?thesis
    using getElementById_darken_None[of "''dark-button''" "body p"]
    by (simp add: body_toggle_dark getElementById_set_button_text)
next
  case (Some b)
  then have "getElementById ''dark-button'' (body p) \<noteq> None"
    using getElementById_darken_None[of "''dark-button''" "body p"] by simp
  moreover have "\<And>c. textContent (set_textContent c b) = c" by (cases b) simp
  ultimately show ?thesis
    using Some get_dark_state_toggle_dark[of p]
    by (auto simp: body_toggle_dark getElementById_set_button_text)
qed

lemma textContent_set_textContent: "textContent (set_textContent c b) = c"
  by (cases b) simp

lemma label_dark_init:
  "map_option textContent (getElementById ''dark-button'' (body (snd (dark_init p)))) = Some l
   \<Longrightarrow> l = (if get_dark_state p = ''y'' then UNDARK_TEXT else DARK_TEXT)"
  by (auto simp: body_dark_init getElementById_set_button_text textContent_set_textContent
      simp del: map_option_eq_Some)

lemma label_dark_init_docs:
  "map_option textContent (getElementById ''dark-button'' (body (snd (dark_init_docs p))))
     = Some (if get_dark_state p = ''y'' then SUN_SYMBOL else MOON_SYMBOL)"
proof -
  obtain b where b: "getElementById ''dark-button'' (body (snd (dark_init_docs p))) = Some b"
    using getElementById_dark_init_docs[of p] by blast
  then show ?thesis
    by (auto simp: body_dark_init_docs getElementById_set_button_text_docs
        textContent_set_textContent)
qed

subsection \<open>Which operations raise\<close>

lemma completions:
  "fst (dark_init p) = Normal"
  "fst (toggle_dark p) = Normal"
  "fst (dark_init_docs p) = Normal"
  "fst (toggle_dark_docs p)
     = (case global_enabled p of None \<Rightarrow> Throw (ReferenceError ''enabled'') | Some v \<Rightarrow> Normal)"
  by (simp_all add: dark_init_def toggle_dark_def dark_init_docs_def toggle_dark_docs_def Let_def
      split: option.splits)

subsection \<open>The label write on a body that carries the id of the control\<close>

lemma has_id_prepend: "has_id i (prepend s d) = has_id i d"
  by (rule shallow_prepend[OF shallow_has_id])

lemma set_button_text_docs_root:
  "has_id ''dark-button'' d \<Longrightarrow>
     set_button_text_docs e d = set_textContent (if e = ''y'' then SUN_SYMBOL else MOON_SYMBOL) d"
  by (simp add: set_button_text_docs_def getElementById_def elements_descendants[of d]
      update_first_root)

lemma body_dark_init_docs_root:
  assumes "elem_id (body p) = ''dark-button''"
  shows "body (snd (dark_init_docs p))
     = set_textContent (if get_dark_state p = ''y'' then SUN_SYMBOL else MOON_SYMBOL)
         (if get_dark_state p = ''y'' then darken_docs (prepend new_div (body p))
          else prepend new_div (body p))"
proof -
  have "has_id ''dark-button'' (prepend new_div (body p))"
    using assms by (simp add: has_id_prepend) (simp add: has_id_def)
  then have "has_id ''dark-button'' (if get_dark_state p = ''y'' then darken_docs (prepend new_div (body p))
          else prepend new_div (body p))"
    by (simp add: has_id_darken_docs)
  then show ?thesis
    by (simp only: body_dark_init_docs set_button_text_docs_root)
qed

lemma children_set_textContent: "children (set_textContent c d) = []"
  by (cases d) simp

lemma count_id_set_textContent: "count_id i (set_textContent c d) = (if has_id i d then 1 else 0)"
  by (cases d) (simp add: count_id_def has_id_def)

lemma children_dark_init_docs_all:
  "children (body (snd (dark_init_docs p)))
     = (if elem_id (body p) = ''dark-button'' then []
        else Element ''div'' ''dark-button'' [] []
               (if get_dark_state p = ''y'' then SUN_SYMBOL else MOON_SYMBOL) (Some Toggle_dark) []
             # children (if get_dark_state p = ''y'' then darken_docs (body p) else body p))"
proof (cases "elem_id (body p) = ''dark-button''")
  case True
  then show ?thesis
    by (simp add: body_dark_init_docs_root children_set_textContent)
next
  case False
  then show ?thesis using children_dark_init_docs[OF False] by simp
qed

lemma count_id_dark_init_docs_all:
  "count_id ''dark-button'' (body (snd (dark_init_docs p)))
     = (if elem_id (body p) = ''dark-button'' then 1 else count_id ''dark-button'' (body p) + 1)"
proof (cases "elem_id (body p) = ''dark-button''")
  case True
  have "has_id ''dark-button'' (if get_dark_state p = ''y'' then darken_docs (prepend new_div (body p))
          else prepend new_div (body p))"
    using True by (simp add: has_id_darken_docs has_id_prepend) (simp add: has_id_def)
  then show ?thesis
    using True by (simp add: body_dark_init_docs_root count_id_set_textContent)
next
  case False
  then show ?thesis using count_id_dark_init_docs[OF False] by simp
qed

subsection \<open>Elements with their children, up to text\<close>

lemma bare_update_first: "(\<forall>x. bare (f x) = bare x) \<Longrightarrow> bare (update_first P f e) = bare e"
  by (cases e) simp

lemma bare_update_first_list:
  "(\<forall>x. bare (f x) = bare x) \<Longrightarrow> map bare (update_first_list P f xs) = map bare xs"
  by (induction xs) (simp_all add: bare_update_first)

lemma family_update_first_leaf:
  "shallow P \<Longrightarrow> (\<forall>x. bare (f x) = bare x \<and> children (f x) = []) \<Longrightarrow>
   (\<forall>x. find P (elements e) = Some x \<longrightarrow> children x = []) \<Longrightarrow>
     map (\<lambda>x. (bare x, map bare (children x))) (elements (update_first P f e))
       = map (\<lambda>x. (bare x, map bare (children x))) (elements e)"
  "shallow P \<Longrightarrow> (\<forall>x. bare (f x) = bare x \<and> children (f x) = []) \<Longrightarrow>
   (\<forall>x. find P (concat (map elements xs)) = Some x \<longrightarrow> children x = []) \<Longrightarrow>
     map (\<lambda>x. (bare x, map bare (children x))) (concat (map elements (update_first_list P f xs)))
       = map (\<lambda>x. (bare x, map bare (children x))) (concat (map elements xs))"
proof (induction P f e and P f xs rule: update_first_update_first_list.induct)
  case (1 P f t i n cl tx h ch)
  show ?case
  proof (cases "P (Element t i n cl tx h ch)")
    case True
    then have "ch = []" using "1.prems"(3) by simp
    moreover have "elements (f (Element t i n cl tx h ch)) = [f (Element t i n cl tx h ch)]"
      using "1.prems"(2) by (subst elements_root) simp
    ultimately show ?thesis using True "1.prems"(2) by simp
  next
    case False
    have b: "map bare (update_first_list P f ch) = map bare ch"
      using "1.prems"(2) by (simp add: bare_update_first_list)
    have "\<forall>x. find P (concat (map elements ch)) = Some x \<longrightarrow> children x = []"
      using "1.prems"(3) False by simp
    then have "map (\<lambda>x. (bare x, map bare (children x)))
          (concat (map elements (update_first_list P f ch)))
        = map (\<lambda>x. (bare x, map bare (children x))) (concat (map elements ch))"
      by (rule "1.IH"[OF False "1.prems"(1,2)])
    then show ?thesis using False b by simp
  qed
next
  case (2 P f)
  then show ?case by simp
next
  case (3 P f x xs)
  show ?case
  proof (cases "list_ex P (elements x)")
    case True
    then obtain y where y: "find P (elements x) = Some y"
      using list_ex_find_Some by blast
    have "\<forall>z. find P (elements x) = Some z \<longrightarrow> children z = []"
      using "3.prems"(3) y by (simp add: find_append)
    then have "map (\<lambda>x. (bare x, map bare (children x))) (elements (update_first P f x))
        = map (\<lambda>x. (bare x, map bare (children x))) (elements x)"
      by (rule "3.IH"(1)[OF True "3.prems"(1,2)])
    then show ?thesis using True by simp
  next
    case False
    then have n: "find P (elements x) = None" by (simp add: list_ex_find_None)
    have "\<forall>z. find P (concat (map elements xs)) = Some z \<longrightarrow> children z = []"
      using "3.prems"(3) n by (simp add: find_append)
    then have "map (\<lambda>x. (bare x, map bare (children x)))
          (concat (map elements (update_first_list P f xs)))
        = map (\<lambda>x. (bare x, map bare (children x))) (concat (map elements xs))"
      by (rule "3.IH"(2)[OF False "3.prems"(1,2)])
    then show ?thesis using False by simp
  qed
qed

lemma family_set_button_text:
  assumes "control_leaf d"
  shows "map (\<lambda>x. (bare x, map bare (children x))) (elements (set_button_text e d))
         = map (\<lambda>x. (bare x, map bare (children x))) (elements d)"
proof (cases "getElementById ''dark-button'' d")
  case None
  then show ?thesis by (simp add: set_button_text_def)
next
  case (Some b)
  have "\<forall>x. find (has_id ''dark-button'') (elements d) = Some x \<longrightarrow> children x = []"
    using assms by (simp add: control_leaf_def getElementById_def split: option.splits)
  then have "map (\<lambda>x. (bare x, map bare (children x)))
        (elements (update_first (has_id ''dark-button'')
           (set_textContent (if e = ''y'' then UNDARK_TEXT else DARK_TEXT)) d))
      = map (\<lambda>x. (bare x, map bare (children x))) (elements d)"
    by (rule family_update_first_leaf(1)[OF shallow_has_id set_textContent_bare_leaf])
  then show ?thesis using Some by (simp add: set_button_text_def Let_def)
qed

lemma find_through_map:
  assumes "map g xs = map g ys" and "\<And>x. Q x = Q' (g x)"
  shows "map_option g (find Q xs) = map_option g (find Q ys)"
proof -
  have "Q = (\<lambda>x. Q' (g x))" using assms(2) by auto
  then have "\<And>zs. map_option g (find Q zs) = find Q' (map g zs)"
    by (simp add: find_map comp_def)
  then show ?thesis using assms(1) by simp
qed

lemma first_header_dark_init:
  assumes h: "header_in (body p)" and cp: "control_plain (body p)"
  shows "map_option (\<lambda>x. map bare (take 1 (children x)))
           (find named_header (getElementsByTagName ''div'' (body (snd (dark_init p)))))
         = Some [new_span]"
proof -
  let ?g = "\<lambda>x. (bare x, map bare (children x))"
  let ?d = "if get_dark_state p = ''y'' then darken (body p) else body p"
  let ?d2 = "prepend_header new_span ?d"
  let ?d3 = "set_button_text (get_dark_state p) ?d2"
  have h': "header_in ?d" using h by (simp add: header_in_darken)
  have cp': "control_plain ?d" using cp by (simp add: control_plain_darken)
  have b3: "body (snd (dark_init p)) = ?d3" using h' by (simp add: body_dark_init Let_def)
  have leaf: "control_leaf ?d2" by (rule control_leaf_prepend_header[OF cp' h'])
  have "map ?g (elements ?d3) = map ?g (elements ?d2)"
    by (rule family_set_button_text[OF leaf])
  then have m: "map ?g (descendants ?d3) = map ?g (descendants ?d2)"
    by (simp add: descendants_tl map_tl)
  have q: "\<And>x. named_header x = (named_header \<circ> fst) (?g x)"
    by (simp add: shallowD[OF shallow_named_header])
  have e: "map_option ?g (find named_header (descendants ?d3))
        = map_option ?g (find named_header (descendants ?d2))"
    using find_through_map[of ?g "descendants ?d3" "descendants ?d2" named_header
        "named_header \<circ> fst"] m q by blast
  obtain h1 where h1: "find named_header (getElementsByTagName ''div'' ?d) = Some h1"
    using h' list_ex_find_Some[of named_header "getElementsByTagName ''div'' ?d"]
    by (auto simp: header_in_def)
  have f2: "find named_header (descendants ?d2) = Some (prepend new_span h1)"
    using find_header_prepend_header[of new_span ?d] h1
    by (simp add: getElementsByTagName_def find_header_divs)
  obtain h3 where h3: "find named_header (descendants ?d3) = Some h3"
    and g3: "?g h3 = ?g (prepend new_span h1)"
    using e f2 by (cases "find named_header (descendants ?d3)") auto
  have "map bare (children h3) = bare new_span # map bare (children h1)"
    using g3 by (cases h1) simp
  then have "map bare (take 1 (children h3)) = [new_span]"
    by (cases "children h3") (simp_all add: new_span_def)
  then show ?thesis
    using h3 by (simp add: b3 getElementsByTagName_def find_header_divs)
qed

subsection \<open>The label write adds no element\<close>

lemma count_update_first_le:
  "shallow C \<Longrightarrow> (\<forall>x. bare (f x) = bare x \<and> children (f x) = []) \<Longrightarrow>
     length (filter C (elements (update_first P f e))) \<le> length (filter C (elements e))"
  "shallow C \<Longrightarrow> (\<forall>x. bare (f x) = bare x \<and> children (f x) = []) \<Longrightarrow>
     length (filter C (concat (map elements (update_first_list P f xs))))
       \<le> length (filter C (concat (map elements xs)))"
proof (induction P f e and P f xs rule: update_first_update_first_list.induct)
  case (1 P f t i n cl tx h ch)
  let ?e = "Element t i n cl tx h ch"
  show ?case
  proof (cases "P ?e")
    case True
    have el: "elements (f ?e) = [f ?e]"
      using "1.prems"(2) by (subst elements_root) simp
    have "C (f ?e) = C ?e"
      using "1.prems"(2) shallowD[OF "1.prems"(1), of "f ?e"] shallowD[OF "1.prems"(1), of ?e]
      by simp
    then show ?thesis using True el by simp
  next
    case False
    have "C (Element t i n cl tx h (update_first_list P f ch)) = C ?e"
      by (rule shallow_children[OF "1.prems"(1)])
    then show ?thesis using False "1.IH"[OF False "1.prems"] by simp
  qed
next
  case (2 P f)
  then show ?case by simp
next
  case (3 P f x xs)
  show ?case
  proof (cases "list_ex P (elements x)")
    case True
    then show ?thesis using "3.IH"(1)[OF True "3.prems"] by simp
  next
    case False
    then show ?thesis using "3.IH"(2)[OF False "3.prems"] by simp
  qed
qed

lemma count_id_set_button_text_le: "count_id i (set_button_text e d) \<le> count_id i d"
  using count_update_first_le(1)[OF shallow_has_id set_textContent_bare_leaf]
  by (cases "getElementById ''dark-button'' d") (simp_all add: set_button_text_def Let_def count_id_def)

lemma body_dark_init_no_header:
  "\<not> header_in (body p) \<Longrightarrow>
     body (snd (dark_init p))
       = set_button_text (get_dark_state p)
           (if get_dark_state p = ''y'' then darken (body p) else body p)"
  by (simp add: body_dark_init Let_def header_in_darken)

lemma count_id_dark_init_no_header_le:
  assumes "\<not> header_in (body p)"
  shows "count_id ''dark-button'' (body (snd (dark_init p))) \<le> count_id ''dark-button'' (body p)"
proof -
  have "count_id ''dark-button'' (body (snd (dark_init p)))
      \<le> count_id ''dark-button'' (if get_dark_state p = ''y'' then darken (body p) else body p)"
    by (simp only: body_dark_init_no_header[OF assms] count_id_set_button_text_le)
  then show ?thesis by (simp add: count_id_darken split: if_splits)
qed

subsection \<open>A reload after a toggle\<close>

text \<open>
  What holds of a reload in both variants: the value that \<open>toggle_dark\<close> stored is read
  back, and the marker of the body is inverted exactly when it is \<open>y\<close>. In the first
  variant every card is inverted exactly then.
\<close>

lemma reload_after_toggle:
  "localStorage (snd (toggle_dark_docs p)) = localStorage (snd (toggle_dark p))
   \<and> (let X = (if get_dark_state p = ''y'' then ''n'' else ''y'');
          r = \<lparr>body = d, localStorage = localStorage (snd (toggle_dark p)), global_enabled = g\<rparr>
      in get_dark_state r = X
         \<and> has_class ''dark'' (body (snd (dark_init r))) = (has_class ''dark'' d \<noteq> (X = ''y''))
         \<and> (themed v d \<longrightarrow> themed (v \<noteq> (X = ''y'')) (body (snd (dark_init r))))
         \<and> (control_plain d \<longrightarrow>
              surface_markers (body (snd (dark_init r)))
                = map (\<lambda>m. m \<noteq> (X = ''y'')) (surface_markers d))
         \<and> has_class ''darken'' (body (snd (dark_init_docs r)))
             = (has_class ''darken'' d \<noteq> (X = ''y'')))"
proof -
  let ?r = "\<lparr>body = d, localStorage = localStorage (snd (toggle_dark p)), global_enabled = g\<rparr>"
  let ?X = "if get_dark_state p = ''y'' then ''n'' else ''y''"
  have x: "get_dark_state ?r = ?X" by (rule get_dark_state_reload)
  have b: "body ?r = d" by simp
  have 1: "has_class ''dark'' (body (snd (dark_init ?r))) = (has_class ''dark'' d \<noteq> (?X = ''y''))"
    by (simp only: has_class_body_dark_init x b)
  have 2: "themed v d \<longrightarrow> themed (v \<noteq> (?X = ''y'')) (body (snd (dark_init ?r)))"
    using themed_dark_init[of v ?r] by (simp only: x b) blast
  have 3: "has_class ''darken'' (body (snd (dark_init_docs ?r))) = (has_class ''darken'' d \<noteq> (?X = ''y''))"
    by (simp only: has_class_body_dark_init_docs x b)
  have 5: "control_plain d \<longrightarrow> surface_markers (body (snd (dark_init ?r)))
                = map (\<lambda>m. m \<noteq> (?X = ''y'')) (surface_markers d)"
    using surface_markers_dark_init[of ?r] by (simp only: x b) blast
  show ?thesis
    unfolding Let_def using localStorage_toggle_dark_docs x 1 2 3 5 by blast
qed

section \<open>The claims\<close>

subsection \<open>C1: an even number of toggles\<close>

text \<open>
  Claim C1. An even number of consecutive calls of \<open>toggle_dark\<close> returns the observable
  state (the stored preference, the marker of the body and the markers of the themed
  surfaces) to its initial value; in particular two calls do. \<open>toggle_dark\<close> only runs
  as the click handler that \<open>dark_init\<close> installs, so the states it starts from are the
  pages that \<open>dark_init\<close> leaves: the statement holds for all of them, in both variants
  and for every stored preference. It also holds from any page whose control has no child
  elements. The stored preference is compared as the scripts read it (\<open>y\<close> or not): an
  absent value is stored as \<open>n\<close> after two toggles. In \<open>docs/dark.js\<close> every call raises
  after its writes; the writes are what is observed.
\<close>

theorem toggle_dark_even_restores:
  "observable (toggles (2 * k) (snd (dark_init p))) = observable (snd (dark_init p))
   \<and> observable_docs (toggles_docs (2 * k) (snd (dark_init_docs p)))
       = observable_docs (snd (dark_init_docs p))
   \<and> (control_leaf (body s) \<longrightarrow>
        observable (snd (toggle_dark (snd (toggle_dark s)))) = observable s
        \<and> observable (toggles (2 * k) s) = observable s
        \<and> observable_docs (snd (toggle_dark_docs (snd (toggle_dark_docs s)))) = observable_docs s
        \<and> observable_docs (toggles_docs (2 * k) s) = observable_docs s)"
  using toggles_even[OF control_leaf_dark_init] toggles_docs_even[OF control_leaf_dark_init_docs]
    toggles_even toggles_docs_even observable_toggle_dark_twice observable_docs_toggle_twice
  by blast

theorem toggle_dark_even_restores_witness:
  "control_leaf (body sample_page_dark)
   \<and> observable (snd (toggle_dark (snd (toggle_dark sample_page_dark)))) = observable sample_page_dark
   \<and> observable (toggles (2 * 3) sample_page_dark) = (True, False, [False, False])
   \<and> observable_docs (toggles_docs (2 * 3) sample_page_dark)
       = (True, False, [False, False, False, False])"
proof -
  have h: "control_leaf (body sample_page_dark)" by code_simp
  have o: "observable sample_page_dark = (True, False, [False, False])"
    "observable_docs sample_page_dark = (True, False, [False, False, False, False])"
    by code_simp+
  show ?thesis
    using toggle_dark_even_restores[of 3 sample_page sample_page_dark] h o by simp
qed

subsection \<open>C2: the preference survives a reload\<close>

text \<open>
  Claim C2. After \<open>toggle_dark\<close> has written the preference \<open>X\<close>, \<open>dark_init\<close> on the
  reloaded page reads \<open>X\<close> back and applies the visual effect to the body and to the
  surfaces exactly when \<open>X\<close> is \<open>y\<close>. Both variants read \<open>X\<close> back and invert the
  marker of the body exactly then, and the first variant inverts every card (lemma
  \<open>reload_after_toggle\<close>). In \<open>docs/dark.js\<close> the effect does not reach a surface that
  belongs to two of the three collections: on a page with a \<open>pre\<close> element of class
  \<open>card\<close> and nothing stored, a click stores \<open>y\<close>, and \<open>dark_init\<close> on the reloaded
  page marks the body while that surface, unmarked in the document, stays unmarked.
\<close>

theorem reload_docs_surface_unmarked:
  "get_dark_state page_pre_card_light = ''n''
   \<and> get_dark_state page_pre_card_reloaded = ''y''
   \<and> map (has_class ''darken'') (getElementsByClassName ''card'' (body page_pre_card_reloaded))
       = [False]
   \<and> has_class ''darken'' (body (snd (dark_init_docs page_pre_card_reloaded)))
   \<and> map (has_class ''darken'')
        (getElementsByClassName ''card'' (body (snd (dark_init_docs page_pre_card_reloaded))))
       = [False]"
  by code_simp

subsection \<open>C3: the default state\<close>

text \<open>
  Claim C3. When the key \<open>darkmode_enabled\<close> is absent or holds any value other than
  \<open>y\<close>, \<open>dark_init\<close> resolves the preference to light (the value it reads is not \<open>y\<close>),
  leaves the marker of the body as it is, and leaves the marker absent from the body and
  from every themed surface of a page that had it nowhere. In \<open>docs/dark.js\<close> the
  surfaces are the members of all three collections.
\<close>

theorem dark_init_default_light:
  assumes "localStorage p ''darkmode_enabled'' \<noteq> Some ''y''"
  shows "get_dark_state p \<noteq> ''y''
    \<and> has_class ''dark'' (body (snd (dark_init p))) = has_class ''dark'' (body p)
    \<and> (themed False (body p) \<longrightarrow> themed False (body (snd (dark_init p))))
    \<and> has_class ''darken'' (body (snd (dark_init_docs p))) = has_class ''darken'' (body p)
    \<and> (unmarked_docs (body p) \<longrightarrow> unmarked_docs (body (snd (dark_init_docs p))))"
proof -
  have e: "get_dark_state p \<noteq> ''y''" using assms by (rule get_dark_state_not_y)
  have 1: "has_class ''dark'' (body (snd (dark_init p))) = has_class ''dark'' (body p)"
    using e by (simp add: has_class_body_dark_init)
  have 2: "themed False (body p) \<longrightarrow> themed False (body (snd (dark_init p)))"
    using themed_dark_init[of False p] e by simp
  have 3: "has_class ''darken'' (body (snd (dark_init_docs p))) = has_class ''darken'' (body p)"
    using e by (simp add: has_class_body_dark_init_docs)
  have 4: "unmarked_docs (body p) \<longrightarrow> unmarked_docs (body (snd (dark_init_docs p)))"
    using e by (simp add: body_dark_init_docs unmarked_docs_prepend
        unmarked_docs_set_button_text_docs)
  show ?thesis using e 1 2 3 4 by blast
qed

theorem dark_init_default_light_witness:
  "localStorage sample_page ''darkmode_enabled'' \<noteq> Some ''y''
   \<and> themed False (body sample_page) \<and> unmarked_docs (body sample_page)
   \<and> get_dark_state sample_page = ''n''
   \<and> themed False (body (snd (dark_init sample_page)))
   \<and> unmarked_docs (body (snd (dark_init_docs sample_page)))"
proof -
  have h: "localStorage sample_page ''darkmode_enabled'' \<noteq> Some ''y''"
    by (simp add: sample_page_def)
  have t: "themed False (body sample_page)" "unmarked_docs (body sample_page)"
    "get_dark_state sample_page = ''n''"
    by code_simp+
  show ?thesis using dark_init_default_light[OF h] h t by blast
qed

subsection \<open>C4: the label of the control\<close>

text \<open>
  Claim C4. After \<open>dark_init\<close> or \<open>toggle_dark\<close> the label of the control is the one
  configured for the opposite state. The first variant does this (lemma
  \<open>label_toggle_dark\<close>). In \<open>docs/dark.js\<close>, \<open>toggle_dark\<close> passes the unbound identifier
  \<open>enabled\<close> where the first variant passes \<open>e\<close>, and raises before the label is written:
  on the empty page the label after \<open>dark_init\<close> is the moon (light is current), and
  after a click the preference is dark and the body carries the marker, but the label is
  still the moon, the label of the current state.
\<close>

theorem toggle_dark_docs_stale_label:
  "map_option textContent (getElementById ''dark-button'' (body (snd (dark_init_docs page_empty))))
     = Some MOON_SYMBOL
   \<and> get_dark_state (snd (toggle_dark_docs (snd (dark_init_docs page_empty)))) = ''y''
   \<and> has_class ''darken'' (body (snd (toggle_dark_docs (snd (dark_init_docs page_empty)))))
   \<and> map_option textContent
        (getElementById ''dark-button'' (body (snd (toggle_dark_docs (snd (dark_init_docs page_empty))))))
       = Some MOON_SYMBOL"
  by code_simp

subsection \<open>C5: no operation raises\<close>

text \<open>
  Claim C5. No operation raises an error. \<open>dark_init\<close> completes normally, but in
  \<open>docs/dark.js\<close> the click handler \<open>toggle_dark\<close> raises a \<open>ReferenceError\<close> on its last
  statement, here on the page that \<open>dark_init\<close> leaves from the empty page.
\<close>

theorem toggle_dark_docs_raises:
  "fst (dark_init_docs page_empty) = Normal
   \<and> fst (toggle_dark_docs (snd (dark_init_docs page_empty))) = Throw (ReferenceError ''enabled'')"
  by code_simp

subsection \<open>C6: surfaces follow the body\<close>

text \<open>
  Claim C6, as amended. If, before \<open>dark_init\<close>, the marker is present on every themed
  surface exactly when it is present on the body, then this still holds after \<open>dark_init\<close>
  and after any number of calls of \<open>toggle_dark\<close>. For \<open>docs/dark.js\<close> the surfaces are
  those that belong to exactly one of the three collections.
\<close>

theorem surface_sync_from_synced:
  "(in_sync (body p) \<longrightarrow> in_sync (body (toggles n (snd (dark_init p)))))
   \<and> (in_sync_docs (body p) \<longrightarrow> in_sync_docs (body (toggles_docs n (snd (dark_init_docs p)))))"
proof (intro conjI impI)
  assume "in_sync (body p)"
  then have "themed (has_class ''dark'' (body p)) (body p)" by (simp only: in_sync_themed)
  then have "in_sync (body (snd (dark_init p)))"
    using themed_dark_init themed_in_sync by blast
  then show "in_sync (body (toggles n (snd (dark_init p))))" by (rule in_sync_toggles)
next
  assume "in_sync_docs (body p)"
  then have "themed_docs (has_class ''darken'' (body p)) (body p)" by (simp only: in_sync_docs_themed)
  then have "in_sync_docs (body (snd (dark_init_docs p)))"
    using themed_docs_dark_init_docs themed_docs_in_sync by blast
  then show "in_sync_docs (body (toggles_docs n (snd (dark_init_docs p))))"
    by (rule in_sync_docs_toggles_docs)
qed

theorem surface_sync_from_synced_witness:
  "in_sync (body sample_page_dark) \<and> in_sync_docs (body sample_page_dark)
   \<and> in_sync (body (toggles 3 (snd (dark_init sample_page_dark))))
   \<and> in_sync_docs (body (toggles_docs 3 (snd (dark_init_docs sample_page_dark))))"
proof -
  have h: "in_sync (body sample_page_dark)" "in_sync_docs (body sample_page_dark)"
    by code_simp+
  show ?thesis using surface_sync_from_synced[of sample_page_dark 3] h by blast
qed

text \<open>
  The claim as stated fails: the scripts invert markers and never set them, so a card that
  carries the marker in the markup of a page whose body does not keeps disagreeing with the
  body, after \<open>dark_init\<close> and after a toggle.
\<close>

theorem surface_sync_counterexample:
  "\<not> has_class ''dark'' (body (snd (dark_init page_marked_card)))
   \<and> map (has_class ''dark'')
        (getElementsByClassName ''card'' (body (snd (dark_init page_marked_card)))) = [True]
   \<and> \<not> in_sync (body (toggles 0 (snd (dark_init page_marked_card))))
   \<and> \<not> in_sync (body (toggles 1 (snd (dark_init page_marked_card))))"
  by code_simp

subsection \<open>C7: where the control is inserted\<close>

text \<open>
  Claim C7, as amended. \<open>dark_init\<close> of \<open>docs/dark.js\<close> prepends the created control to
  the body: afterwards an element with the id of the control is always found, and the
  labelled control is the first child of the body, unless the body itself carries that id,
  in which case the label write leaves the body without children. The first variant inserts
  the created control only into the header container. When one exists, an element with the
  id of the control is found afterwards; if moreover the element that carried the id
  before, if any, has no children and is not the header container, the first child of the
  header container is the created control (compared up to its text); and on a page that had
  no element with the id, the header container holds the labelled control as its first
  child. When no header container exists nothing is inserted: the body is the one after
  the visual effect with the label written, and an element with the id is found afterwards
  exactly when one was there before.
\<close>

theorem control_insertion:
  "getElementById ''dark-button'' (body (snd (dark_init_docs p))) \<noteq> None
   \<and> children (body (snd (dark_init_docs p)))
       = (if elem_id (body p) = ''dark-button'' then []
          else Element ''div'' ''dark-button'' [] []
                 (if get_dark_state p = ''y'' then SUN_SYMBOL else MOON_SYMBOL) (Some Toggle_dark) []
               # children (if get_dark_state p = ''y'' then darken_docs (body p) else body p))
   \<and> (header_in (body p) \<longrightarrow> getElementById ''dark-button'' (body (snd (dark_init p))) \<noteq> None)
   \<and> (header_in (body p) \<and> control_plain (body p) \<longrightarrow>
        map_option (\<lambda>x. map bare (take 1 (children x)))
          (find named_header (getElementsByTagName ''div'' (body (snd (dark_init p)))))
        = Some [new_span])
   \<and> (getElementById ''dark-button'' (body p) = None \<longrightarrow>
        find named_header (getElementsByTagName ''div'' (body (snd (dark_init p))))
          = map_option
              (prepend (Element ''span'' ''dark-button'' [] []
                 (if get_dark_state p = ''y'' then UNDARK_TEXT else DARK_TEXT) (Some Toggle_dark) []))
              (find named_header (getElementsByTagName ''div''
                 (if get_dark_state p = ''y'' then darken (body p) else body p))))
   \<and> (\<not> header_in (body p) \<longrightarrow>
        body (snd (dark_init p))
          = set_button_text (get_dark_state p)
              (if get_dark_state p = ''y'' then darken (body p) else body p)
        \<and> (getElementById ''dark-button'' (body (snd (dark_init p))) = None)
          = (getElementById ''dark-button'' (body p) = None))"
  using getElementById_dark_init_docs children_dark_init_docs_all getElementById_dark_init_header
    first_header_dark_init find_header_dark_init getElementById_dark_init_no_header
    body_dark_init_no_header
  by blast

theorem control_insertion_witness:
  "header_in (body plain_page)
   \<and> getElementById ''dark-button'' (body plain_page) = None
   \<and> header_in (body page_with_control) \<and> control_plain (body page_with_control)
   \<and> \<not> header_in (body page_no_header)
   \<and> children (body (snd (dark_init_docs plain_page)))
       = Element ''div'' ''dark-button'' [] [] MOON_SYMBOL (Some Toggle_dark) []
         # children (body plain_page)
   \<and> children (body (snd (dark_init_docs page_body_control))) = []
   \<and> getElementById ''dark-button'' (body (snd (dark_init plain_page))) \<noteq> None
   \<and> map_option (\<lambda>x. map bare (take 1 (children x)))
        (find named_header (getElementsByTagName ''div'' (body (snd (dark_init page_with_control)))))
       = Some [new_span]
   \<and> find named_header (getElementsByTagName ''div'' (body (snd (dark_init plain_page))))
       = Some (Element ''div'' ''header'' [] [] [] None
                 [Element ''span'' ''dark-button'' [] [] ''dark'' (Some Toggle_dark) []])
   \<and> (getElementById ''dark-button'' (body (snd (dark_init page_no_header))) = None)
       = (getElementById ''dark-button'' (body page_no_header) = None)"
proof -
  have h: "header_in (body plain_page)"
    "getElementById ''dark-button'' (body plain_page) = None"
    "header_in (body page_with_control)" "control_plain (body page_with_control)"
    "\<not> header_in (body page_no_header)"
    by code_simp+
  have e: "get_dark_state plain_page = ''n''"
    "elem_id (body plain_page) \<noteq> ''dark-button''"
    "elem_id (body page_body_control) = ''dark-button''"
    "find named_header (getElementsByTagName ''div'' (body plain_page))
       = Some (Element ''div'' ''header'' [] [] [] None [])"
    by code_simp+
  have 1: "children (body (snd (dark_init_docs plain_page)))
       = Element ''div'' ''dark-button'' [] [] MOON_SYMBOL (Some Toggle_dark) []
         # children (body plain_page)"
    using control_insertion[of plain_page] e by simp
  have 2: "children (body (snd (dark_init_docs page_body_control))) = []"
    using control_insertion[of page_body_control] e by simp
  have 3: "getElementById ''dark-button'' (body (snd (dark_init plain_page))) \<noteq> None"
    using control_insertion[of plain_page] h by blast
  have 4: "map_option (\<lambda>x. map bare (take 1 (children x)))
        (find named_header (getElementsByTagName ''div'' (body (snd (dark_init page_with_control)))))
       = Some [new_span]"
    using control_insertion[of page_with_control] h by blast
  have 5: "find named_header (getElementsByTagName ''div'' (body (snd (dark_init plain_page))))
       = Some (Element ''div'' ''header'' [] [] [] None
                 [Element ''span'' ''dark-button'' [] [] ''dark'' (Some Toggle_dark) []])"
    using control_insertion[of plain_page] h e by (simp add: DARK_TEXT_def)
  have 6: "(getElementById ''dark-button'' (body (snd (dark_init page_no_header))) = None)
       = (getElementById ''dark-button'' (body page_no_header) = None)"
    using control_insertion[of page_no_header] h by blast
  show ?thesis using h 1 2 3 4 5 6 by blast
qed

text \<open>
  The claim as stated fails for the first variant: on a page without a header container
  the control is created and never inserted, and no control is found after \<open>dark_init\<close>.
\<close>

theorem control_insertion_counterexample:
  "getElementById ''dark-button'' (body (snd (dark_init page_no_header))) = None"
  by code_simp

subsection \<open>C8: a control that already exists\<close>

text \<open>
  Claim C8, as amended. \<open>dark_init\<close> creates a new control on every call and does not
  look for an existing one. In \<open>docs/dark.js\<close> the new element is always prepended to the
  body: afterwards the page holds one more element with the id of the control than before,
  unless the body itself carries the id, in which case the label write removes the
  children of the body and the body is the only element with the id. In the first variant
  the page holds one more such element when a header container exists and the element that
  carried the id before, if any, has no children and is not the header container. Without
  a header container the first variant inserts nothing: the number of such elements does
  not grow, and it is unchanged when the element that carries the id has no children.
\<close>

theorem control_always_created:
  "count_id ''dark-button'' (body (snd (dark_init_docs p)))
     = (if elem_id (body p) = ''dark-button'' then 1 else count_id ''dark-button'' (body p) + 1)
   \<and> (header_in (body p) \<and> control_plain (body p) \<longrightarrow>
      count_id ''dark-button'' (body (snd (dark_init p))) = count_id ''dark-button'' (body p) + 1)
   \<and> (\<not> header_in (body p) \<longrightarrow>
      count_id ''dark-button'' (body (snd (dark_init p))) \<le> count_id ''dark-button'' (body p))
   \<and> (\<not> header_in (body p) \<and> control_leaf (body p) \<longrightarrow>
      count_id ''dark-button'' (body (snd (dark_init p))) = count_id ''dark-button'' (body p))"
  using count_id_dark_init_docs_all count_id_dark_init_header count_id_dark_init_no_header
    count_id_dark_init_no_header_le
  by blast

theorem control_always_created_witness:
  "header_in (body page_with_control) \<and> control_plain (body page_with_control)
   \<and> \<not> header_in (body page_no_header) \<and> control_leaf (body page_no_header)
   \<and> count_id ''dark-button'' (body (snd (dark_init_docs page_with_control)))
       = count_id ''dark-button'' (body page_with_control) + 1
   \<and> count_id ''dark-button'' (body (snd (dark_init_docs page_body_control))) = 1
   \<and> count_id ''dark-button'' (body (snd (dark_init page_with_control)))
       = count_id ''dark-button'' (body page_with_control) + 1
   \<and> count_id ''dark-button'' (body (snd (dark_init page_no_header)))
       = count_id ''dark-button'' (body page_no_header)"
proof -
  have h: "elem_id (body page_with_control) \<noteq> ''dark-button''"
    "elem_id (body page_body_control) = ''dark-button''"
    "header_in (body page_with_control)" "control_plain (body page_with_control)"
    "\<not> header_in (body page_no_header)" "control_leaf (body page_no_header)"
    by code_simp+
  show ?thesis
    using control_always_created[of page_with_control] control_always_created[of page_no_header]
      control_always_created[of page_body_control] h
    by simp
qed

text \<open>
  The claim as stated fails: a page that already holds an element with the id of the
  control holds two of them after \<open>dark_init\<close>, in either variant.
\<close>

theorem control_always_created_counterexample:
  "getElementById ''dark-button'' (body page_with_control) \<noteq> None
   \<and> count_id ''dark-button'' (body page_with_control) = 1
   \<and> count_id ''dark-button'' (body (snd (dark_init_docs page_with_control))) = 2
   \<and> count_id ''dark-button'' (body (snd (dark_init page_with_control))) = 2"
  by code_simp

subsection \<open>C9: the stored value after a toggle\<close>

text \<open>
  Claim C9. After \<open>toggle_dark\<close>, in either variant, the value stored under
  \<open>darkmode_enabled\<close> is \<open>y\<close> or \<open>n\<close>, and it is \<open>y\<close> exactly when the value read
  before the call (the stored value, or \<open>n\<close> for an absent or empty one) was not \<open>y\<close>.
  An absent or unexpected stored value is therefore replaced by a valid one. In
  \<open>docs/dark.js\<close> the value is written before the statement that raises.
\<close>

theorem toggle_dark_stored_value:
  "(let v = localStorage (snd (toggle_dark p)) ''darkmode_enabled''
    in (v = Some ''y'' \<or> v = Some ''n'')
       \<and> (v = Some ''y'') = (get_dark_state p \<noteq> ''y'')
       \<and> (v = Some ''y'') = (localStorage p ''darkmode_enabled'' \<noteq> Some ''y''))
   \<and> (let v = localStorage (snd (toggle_dark_docs p)) ''darkmode_enabled''
      in (v = Some ''y'' \<or> v = Some ''n'')
         \<and> (v = Some ''y'') = (or_n (getItem (localStorage p) ''darkmode_enabled'') \<noteq> ''y'')
         \<and> (v = Some ''y'') = (localStorage p ''darkmode_enabled'' \<noteq> Some ''y''))"
  by (simp add: toggle_dark_def toggle_dark_docs_def get_dark_state_def setItem_def
      getItem_def or_n_def Let_def split: option.splits)

subsection \<open>C10: the effect inverts the marker of each surface\<close>

text \<open>
  Claim C10. With the stored value \<open>y\<close>, \<open>dark_init\<close> inverts the marker of the body and
  of each themed surface. The first variant does (lemmas \<open>has_class_body_dark_init\<close> and
  \<open>surface_markers_dark_init\<close>). In \<open>docs/dark.js\<close> an element that belongs to two of the
  three collections is toggled twice: on a page with a \<open>pre\<close> element of class \<open>card\<close>
  and the stored value \<open>y\<close>, the body carries the marker after \<open>dark_init\<close> and that
  surface, which had none, still has none.
\<close>

theorem dark_init_docs_double_toggle:
  "get_dark_state page_pre_card = ''y''
   \<and> map (has_class ''darken'') (getElementsByClassName ''card'' (body page_pre_card)) = [False]
   \<and> has_class ''darken'' (body (snd (dark_init_docs page_pre_card)))
   \<and> map (has_class ''darken'')
        (getElementsByClassName ''card'' (body (snd (dark_init_docs page_pre_card)))) = [False]"
  by code_simp

end
